theory Spec2Isabelle
  imports Main
begin

section \<open>Python values\<close>

text \<open>
  A Python \<open>str\<close> is a sequence of code points. A code point is a natural number below
  \<open>0x110000\<close>; the surrogates \<open>0xD800..0xDFFF\<close> can occur in a \<open>str\<close> (a command-line
  argument that is not valid UTF-8 is decoded with \<open>surrogateescape\<close>). Bytes are natural
  numbers below 256.
\<close>

type_synonym pystr = "nat list"

definition lit :: "string \<Rightarrow> pystr" where
  "lit s = map (of_char :: char \<Rightarrow> nat) s"

text \<open>
  The value \<open>response.json()\<close> returns. \<open>JNull\<close> is Python's \<open>None\<close>. \<open>JObj\<close> holds the
  items of a \<open>dict\<close> in insertion order (the keys of a \<open>dict\<close> are distinct). Numbers are
  integers; floating point numbers are not modelled.
\<close>

datatype json =
    JNull
  | JBool bool
  | JInt int
  | JStr pystr
  | JArr "json list"
  | JObj "(pystr \<times> json) list"

text \<open>
  Exceptions. \<open>RequestException\<close> stands for \<open>requests.exceptions.RequestException\<close> and
  all its subclasses, with the text \<open>str(e)\<close>; it is the only class that
  \<open>upload_to_release\<close> catches.
\<close>

datatype exn =
    RequestException pystr
  | KeyError pystr
  | TypeError
  | AttributeError
  | UnicodeEncodeError
  | OSError pystr
  | OtherException pystr

subsection \<open>Operations of the standard library\<close>

text \<open>\<open>release['upload_url']\<close>: subscription with a \<open>str\<close> key.\<close>

fun getitem :: "json \<Rightarrow> pystr \<Rightarrow> exn + json" where
  "getitem (JObj kvs) k = (case map_of kvs k of None \<Rightarrow> Inl (KeyError k) | Some v \<Rightarrow> Inr v)"
| "getitem j k = Inl TypeError"

text \<open>\<open>x.split('{')[0]\<close>: only a \<open>str\<close> has the method; the first piece always exists.\<close>

fun split_brace_0 :: "json \<Rightarrow> exn + pystr" where
  "split_brace_0 (JStr s) = Inr (takeWhile (\<lambda>c. c \<noteq> 123) s)"
| "split_brace_0 j = Inl AttributeError"

text \<open>\<open>result.get('id')\<close>: only a \<open>dict\<close> has the method; a missing key gives \<open>None\<close>.\<close>

fun dict_get :: "json \<Rightarrow> pystr \<Rightarrow> exn + json" where
  "dict_get (JObj kvs) k = Inr (case map_of kvs k of None \<Rightarrow> JNull | Some v \<Rightarrow> v)"
| "dict_get j k = Inl AttributeError"

text \<open>
  \<open>Path(file_path).name\<close> on a POSIX system: the last component of the path, where empty
  components and \<open>.\<close> components do not count; the empty string when there is none.
\<close>

fun split_on :: "nat \<Rightarrow> pystr \<Rightarrow> pystr list" where
  "split_on sep [] = [[]]"
| "split_on sep (c # cs) =
     (if c = sep then [] # split_on sep cs
      else (case split_on sep cs of [] \<Rightarrow> [[c]] | p # ps \<Rightarrow> (c # p) # ps))"

definition path_name :: "pystr \<Rightarrow> pystr" where
  "path_name p =
     (let parts = filter (\<lambda>c. c \<noteq> [] \<and> c \<noteq> [46]) (split_on 47 p)
      in if parts = [] then [] else last parts)"

text \<open>
  \<open>str(Path(file_path))\<close> on a POSIX system: the root (\<open>//\<close> for exactly two leading
  slashes, \<open>/\<close> for any other number of them) and the components joined by \<open>/\<close>; a
  path without root and components is \<open>.\<close>.
\<close>

fun join_slash :: "pystr list \<Rightarrow> pystr" where
  "join_slash [] = []"
| "join_slash [x] = x"
| "join_slash (x # y # ys) = x @ [47] @ join_slash (y # ys)"

definition path_str :: "pystr \<Rightarrow> pystr" where
  "path_str p =
     (let n = length (takeWhile (\<lambda>c. c = 47) p);
          root = (if n = 2 then [47, 47] else if 1 \<le> n then [47] else []);
          parts = filter (\<lambda>c. c \<noteq> [] \<and> c \<noteq> [46]) (split_on 47 p)
      in if root = [] \<and> parts = [] then [46] else root @ join_slash parts)"

subsection \<open>UTF-8 and percent-encoding\<close>

text \<open>
  \<open>str.encode('utf-8')\<close> with \<open>errors='strict'\<close>: a surrogate code point raises
  \<open>UnicodeEncodeError\<close>. (A number from \<open>0x110000\<close> on is not a code point; the model
  rejects it the same way.)
\<close>

definition utf8_char :: "nat \<Rightarrow> exn + nat list" where
  "utf8_char c =
     (if c < 128 then Inr [c]
      else if c < 2048 then Inr [192 + c div 64, 128 + c mod 64]
      else if c < 65536 then
        (if 55296 \<le> c \<and> c < 57344 then Inl UnicodeEncodeError
         else Inr [224 + c div 4096, 128 + (c div 64) mod 64, 128 + c mod 64])
      else if c < 1114112 then
        Inr [240 + c div 262144, 128 + (c div 4096) mod 64, 128 + (c div 64) mod 64,
             128 + c mod 64]
      else Inl UnicodeEncodeError)"

fun utf8_encode :: "pystr \<Rightarrow> exn + nat list" where
  "utf8_encode [] = Inr []"
| "utf8_encode (c # cs) =
     (case utf8_char c of
        Inl e \<Rightarrow> Inl e
      | Inr bs \<Rightarrow> (case utf8_encode cs of Inl e \<Rightarrow> Inl e | Inr rest \<Rightarrow> Inr (bs @ rest)))"

text \<open>
  \<open>urllib.parse.quote(filename, safe='')\<close>: the string is encoded as UTF-8; a byte that is
  a letter, a digit or one of \<open>_ . - ~\<close> is kept, every other byte becomes \<open>%XX\<close> with
  upper-case hexadecimal digits.
\<close>

definition always_safe :: "nat \<Rightarrow> bool" where
  "always_safe b \<longleftrightarrow>
     (65 \<le> b \<and> b \<le> 90) \<or> (97 \<le> b \<and> b \<le> 122) \<or> (48 \<le> b \<and> b \<le> 57)
     \<or> b = 95 \<or> b = 46 \<or> b = 45 \<or> b = 126"

definition hex_upper :: "nat \<Rightarrow> nat" where
  "hex_upper d = (if d < 10 then 48 + d else 55 + d)"

definition quote_byte :: "nat \<Rightarrow> pystr" where
  "quote_byte b = (if always_safe b then [b] else [37, hex_upper (b div 16), hex_upper (b mod 16)])"

definition quote_from_bytes :: "nat list \<Rightarrow> pystr" where
  "quote_from_bytes bs = concat (map quote_byte bs)"

definition quote :: "pystr \<Rightarrow> exn + pystr" where
  "quote s = (case utf8_encode s of Inl e \<Rightarrow> Inl e | Inr bs \<Rightarrow> Inr (quote_from_bytes bs))"

subsection \<open>\<open>json.dumps(..., ensure_ascii=True)\<close>\<close>

text \<open>The decimal digits of a number, as \<open>str(n)\<close> writes them.\<close>

function str_nat :: "nat \<Rightarrow> pystr" where
  "str_nat n = (if n < 10 then [48 + n] else str_nat (n div 10) @ [48 + n mod 10])"
  by pat_completeness auto
termination
  by (relation "measure id") auto

declare str_nat.simps [simp del]

definition str_int :: "int \<Rightarrow> pystr" where
  "str_int i = (if i < 0 then 45 # str_nat (nat (- i)) else str_nat (nat i))"

definition hex_lower :: "nat \<Rightarrow> nat" where
  "hex_lower d = (if d < 10 then 48 + d else 87 + d)"

text \<open>\<open>'\\u{0:04x}'.format(n)\<close>\<close>

definition u_escape :: "nat \<Rightarrow> pystr" where
  "u_escape n =
     [92, 117, hex_lower (n div 4096), hex_lower ((n div 256) mod 16),
      hex_lower ((n div 16) mod 16), hex_lower (n mod 16)]"

text \<open>
  One character of a string, as \<open>json.encoder.py_encode_basestring_ascii\<close> writes it: the
  printable ASCII characters other than the quote and the backslash stay; the quote, the
  backslash and five control characters have a short escape; every other character is
  written as \<open>\uXXXX\<close>, a character beyond \<open>0xFFFF\<close> as a surrogate pair.
\<close>

definition escape_char :: "nat \<Rightarrow> pystr" where
  "escape_char c =
     (if c = 34 then [92, 34]
      else if c = 92 then [92, 92]
      else if c = 10 then [92, 110]
      else if c = 13 then [92, 114]
      else if c = 9 then [92, 116]
      else if c = 8 then [92, 98]
      else if c = 12 then [92, 102]
      else if 32 \<le> c \<and> c \<le> 126 then [c]
      else if c < 65536 then u_escape c
      else u_escape (55296 + ((c - 65536) div 1024) mod 1024)
           @ u_escape (56320 + (c - 65536) mod 1024))"

definition dumps_str :: "pystr \<Rightarrow> pystr" where
  "dumps_str s = [34] @ concat (map escape_char s) @ [34]"

text \<open>\<open>', '.join(xs)\<close>\<close>

fun join_comma :: "pystr list \<Rightarrow> pystr" where
  "join_comma [] = []"
| "join_comma [x] = x"
| "join_comma (x # y # ys) = x @ [44, 32] @ join_comma (y # ys)"

definition dumps_item :: "pystr \<times> pystr \<Rightarrow> pystr" where
  "dumps_item kv = dumps_str (fst kv) @ [58, 32] @ snd kv"

primrec dumps :: "json \<Rightarrow> pystr" where
  "dumps JNull = lit ''null''"
| "dumps (JBool b) = (if b then lit ''true'' else lit ''false'')"
| "dumps (JInt i) = str_int i"
| "dumps (JStr s) = dumps_str s"
| "dumps (JArr xs) = [91] @ join_comma (map dumps xs) @ [93]"
| "dumps (JObj kvs) = [123] @ join_comma (map dumps_item (map (map_prod id dumps) kvs)) @ [125]"

subsection \<open>\<open>base64.b64encode\<close>\<close>

text \<open>The character of the standard alphabet \<open>A-Z a-z 0-9 + /\<close> for a group of six bits.\<close>

definition b64_char :: "nat \<Rightarrow> nat" where
  "b64_char i =
     (if i < 26 then 65 + i
      else if i < 52 then 71 + i
      else if i < 62 then i - 4
      else if i = 62 then 43
      else 47)"

text \<open>Three bytes give four characters; a last group of one or two bytes is padded with \<open>=\<close>.\<close>

fun b64encode :: "nat list \<Rightarrow> nat list" where
  "b64encode (a # b # c # rest) =
     [b64_char (a div 4), b64_char ((a mod 4) * 16 + b div 16),
      b64_char ((b mod 16) * 4 + c div 64), b64_char (c mod 64)] @ b64encode rest"
| "b64encode [a, b] =
     [b64_char (a div 4), b64_char ((a mod 4) * 16 + b div 16), b64_char ((b mod 16) * 4), 61]"
| "b64encode [a] = [b64_char (a div 4), b64_char ((a mod 4) * 16), 61, 61]"
| "b64encode [] = []"

section \<open>The environment\<close>

text \<open>
  What the program does to the outside world, and what comes back, is recorded as a list of
  events in the order they happen. The answers of the outside world are given by an
  environment whose functions see the events so far, so that a server or a file system may
  answer the same request differently at different times.
\<close>

type_synonym headers = "(pystr \<times> pystr) list"

text \<open>
  A response of the session: \<open>response.status_code\<close>, \<open>response.text\<close>, and what
  \<open>response.json()\<close> returns or raises.
\<close>

record response =
  status_code :: int
  body_text :: pystr
  body_json :: "exn + json"

text \<open>
  The variable \<open>file_path\<close> of \<open>upload_to_release\<close> holds the \<open>str\<close> argument until line 60
  and \<open>Path(file_path)\<close> after it.
\<close>

datatype file_path_val = AsStr pystr | AsPath pystr

text \<open>
  The lines the program prints, one constructor for each \<open>print\<close> of the source, with the
  values its format string inserts:
  \<^item> \<open>Usage\<close>: line 97;
  \<^item> \<open>FileNotFound file_path\<close>: line 112;
  \<^item> \<open>FailedGetRelease status_code text\<close>: line 53;
  \<^item> \<open>Uploaded filename\<close>: line 85;
  \<^item> \<open>FailedUpload filename status_code text\<close>: line 88;
  \<^item> \<open>ExceptionDuringUpload file_path msg\<close>: line 92;
  \<^item> \<open>Results success_count fail_count\<close>: line 127;
  \<^item> \<open>MappingStart\<close>, \<open>Payload encoded\<close>, \<open>MappingEnd\<close>: lines 131, 135 and 136.
\<close>

datatype line =
    Usage
  | FileNotFound pystr
  | FailedGetRelease int pystr
  | Uploaded pystr
  | FailedUpload pystr int pystr
  | ExceptionDuringUpload file_path_val pystr
  | Results nat nat
  | MappingStart
  | Payload pystr
  | MappingEnd

datatype event =
    Exists pystr bool
  | Get pystr headers "exn + response"
  | Open pystr "exn + nat list"
  | Post pystr headers "nat list" "exn + response"
  | Print line

text \<open>
  The error handler of the standard output: \<open>strict\<close>, which Python uses unless told
  otherwise, or \<open>surrogatepass\<close> (as with \<open>PYTHONIOENCODING=utf-8:surrogatepass\<close>). The
  encoding is UTF-8.
\<close>

datatype codec_errors = Strict | SurrogatePass

text \<open>
  \<^item> \<open>path_exists\<close>: \<open>os.path.exists(path)\<close>;
  \<^item> \<open>session_get\<close>: \<open>session.get(url, headers=headers)\<close>, the response or the exception;
  \<^item> \<open>open_rb\<close>: \<open>open(path, 'rb')\<close>, the bytes of the file or the exception;
  \<^item> \<open>session_post\<close>: \<open>session.post(url, headers=headers, data=f)\<close>;
  \<^item> \<open>guess_type\<close>: \<open>mimetypes.guess_type(filename)[0]\<close>;
  \<^item> \<open>stdout_errors\<close>: the error handler of \<open>sys.stdout\<close>.
\<close>

record env =
  path_exists :: "event list \<Rightarrow> pystr \<Rightarrow> bool"
  session_get :: "event list \<Rightarrow> pystr \<Rightarrow> headers \<Rightarrow> exn + response"
  open_rb :: "event list \<Rightarrow> pystr \<Rightarrow> exn + nat list"
  session_post :: "event list \<Rightarrow> pystr \<Rightarrow> headers \<Rightarrow> nat list \<Rightarrow> exn + response"
  guess_type :: "pystr \<Rightarrow> pystr option"
  stdout_errors :: codec_errors

subsection \<open>Printing\<close>

text \<open>
  The text of a line, as the string literals and f-strings of the source build it. The
  escapes \<open>\u274c\<close> and \<open>\u2705\<close> are the code points 10060 and 9989. The literal of line
  127 is written \<open>\ud83d\udcca\<close> in the source, which in a Python string is the two
  surrogate code points 55357 and 56522.
\<close>

fun str_file_path :: "file_path_val \<Rightarrow> pystr" where
  "str_file_path (AsStr p) = p"
| "str_file_path (AsPath p) = path_str p"

fun render :: "line \<Rightarrow> pystr" where
  "render Usage =
     lit ''Usage: python upload_to_release.py <token> <owner> <repo> <tag_name> <file_path> [file_path...]''"
| "render (FileNotFound file_path) = [10060] @ lit '' File not found: '' @ file_path"
| "render (FailedGetRelease code body) =
     [10060] @ lit '' Failed to get release: '' @ str_int code @ lit '' - '' @ body"
| "render (Uploaded filename) = [9989] @ lit '' Successfully uploaded: '' @ filename"
| "render (FailedUpload filename code body) =
     [10060] @ lit '' Failed to upload '' @ filename @ lit '': '' @ str_int code @ lit '' - '' @ body"
| "render (ExceptionDuringUpload file_path msg) =
     [10060] @ lit '' Exception during upload of '' @ str_file_path file_path @ lit '': '' @ msg"
| "render (Results succeeded failed) =
     [10, 55357, 56522] @ lit '' Results: '' @ str_nat succeeded @ lit '' succeeded, ''
     @ str_nat failed @ lit '' failed''"
| "render MappingStart = [10] @ lit ''===FILENAME_MAPPING_START===''"
| "render (Payload encoded) = encoded"
| "render MappingEnd = lit ''===FILENAME_MAPPING_END===''"

text \<open>
  \<open>print(text)\<close> writes the text to the standard output, which encodes it. With the error
  handler \<open>strict\<close> a text that has no UTF-8 encoding raises \<open>UnicodeEncodeError\<close> and
  nothing is written; with \<open>surrogatepass\<close> every text is written.
\<close>

definition can_print :: "env \<Rightarrow> line \<Rightarrow> bool" where
  "can_print env l =
     (case stdout_errors env of
        SurrogatePass \<Rightarrow> True
      | Strict \<Rightarrow> (case utf8_encode (render l) of Inl e \<Rightarrow> False | Inr bs \<Rightarrow> True))"

definition py_print :: "env \<Rightarrow> line \<Rightarrow> event list \<Rightarrow> exn + event list" where
  "py_print env l tr = (if can_print env l then Inr (tr @ [Print l]) else Inl UnicodeEncodeError)"

section \<open>The single-file uploader\<close>

text \<open>
  The session of line 41 has no effect of its own; \<open>session_get\<close> and \<open>session_post\<close>
  of the environment are what its \<open>get\<close> and \<open>post\<close> return after the retries.
  The result of \<open>upload_to_release\<close> is the tuple \<open>(success, original_filename, asset_id)\<close>
  it returns, or the exception that leaves it, together with the events so far.
\<close>

type_synonym upload_result = "exn + (bool \<times> pystr option \<times> json)"

text \<open>
  Lines 91 to 93: the \<open>except\<close> clause around the whole body. A \<open>RequestException\<close> is
  printed and turned into the failure tuple; any other exception leaves the function, and
  so does an exception that the \<open>print\<close> of line 92 raises.
\<close>

definition on_exception ::
  "env \<Rightarrow> exn \<Rightarrow> file_path_val \<Rightarrow> event list \<Rightarrow> upload_result \<times> event list"
where
  "on_exception env e fp tr =
     (case e of
        RequestException m \<Rightarrow>
          (case py_print env (ExceptionDuringUpload fp m) tr of
             Inl e' \<Rightarrow> (Inl e', tr)
           | Inr tr' \<Rightarrow> (Inr (False, None, JNull), tr'))
      | _ \<Rightarrow> (Inl e, tr))"

text \<open>Lines 56 and 57: \<open>release['upload_url'].split('{')[0]\<close> of \<open>response.json()\<close>.\<close>

definition release_upload_url :: "response \<Rightarrow> exn + pystr" where
  "release_upload_url r =
     (case body_json r of
        Inl e \<Rightarrow> Inl e
      | Inr release \<Rightarrow>
          (case getitem release (lit ''upload_url'') of
             Inl e \<Rightarrow> Inl e
           | Inr u \<Rightarrow> split_brace_0 u))"

text \<open>Lines 83 and 84: \<open>response.json().get('id')\<close>.\<close>

definition response_asset_id :: "response \<Rightarrow> exn + json" where
  "response_asset_id r =
     (case body_json r of
        Inl e \<Rightarrow> Inl e
      | Inr result \<Rightarrow> dict_get result (lit ''id''))"

text \<open>Line 65: \<open>mimetypes.guess_type(filename)[0] or 'application/octet-stream'\<close>.\<close>

definition content_type_of :: "env \<Rightarrow> pystr \<Rightarrow> pystr" where
  "content_type_of env filename =
     (case guess_type env filename of
        None \<Rightarrow> lit ''application/octet-stream''
      | Some t \<Rightarrow> if t = [] then lit ''application/octet-stream'' else t)"

definition upload_to_release ::
  "env \<Rightarrow> event list \<Rightarrow> pystr \<Rightarrow> pystr \<Rightarrow> pystr \<Rightarrow> pystr \<Rightarrow> pystr \<Rightarrow> upload_result \<times> event list"
where
  "upload_to_release env tr token owner repo tag_name file_path =
     (let url = lit ''https://api.github.com/repos/'' @ owner @ lit ''/'' @ repo
                @ lit ''/releases/tags/'' @ tag_name;
          headers = [(lit ''Authorization'', lit ''token '' @ token),
                     (lit ''Accept'', lit ''application/vnd.github.v3+json'')];
          got = session_get env tr url headers;
          tr1 = tr @ [Get url headers got]
      in case got of
           Inl e \<Rightarrow> on_exception env e (AsStr file_path) tr1
         | Inr response \<Rightarrow>
             if status_code response \<noteq> 200 then
               (case py_print env (FailedGetRelease (status_code response) (body_text response)) tr1 of
                  Inl e \<Rightarrow> on_exception env e (AsStr file_path) tr1
                | Inr tr' \<Rightarrow> (Inr (False, None, JNull), tr'))
             else
               (case release_upload_url response of
                  Inl e \<Rightarrow> on_exception env e (AsStr file_path) tr1
                | Inr upload_url \<Rightarrow>
                    (let filename = path_name file_path in
                     case quote filename of
                       Inl e \<Rightarrow> on_exception env e (AsPath file_path) tr1
                     | Inr encoded_filename \<Rightarrow>
                         (let content_type = content_type_of env filename;
                              upload_headers = [(lit ''Authorization'', lit ''token '' @ token),
                                                (lit ''Content-Type'', content_type)];
                              upload_url_with_name = upload_url @ lit ''?name='' @ encoded_filename;
                              opened = open_rb env tr1 file_path;
                              tr2 = tr1 @ [Open file_path opened]
                          in case opened of
                               Inl e \<Rightarrow> on_exception env e (AsPath file_path) tr2
                             | Inr f \<Rightarrow>
                                 (let posted = session_post env tr2 upload_url_with_name upload_headers f;
                                      tr3 = tr2 @ [Post upload_url_with_name upload_headers f posted]
                                  in case posted of
                                       Inl e \<Rightarrow> on_exception env e (AsPath file_path) tr3
                                     | Inr response2 \<Rightarrow>
                                         if status_code response2 = 200 \<or> status_code response2 = 201 then
                                           (case response_asset_id response2 of
                                              Inl e \<Rightarrow> on_exception env e (AsPath file_path) tr3
                                            | Inr asset_id \<Rightarrow>
                                                (case py_print env (Uploaded filename) tr3 of
                                                   Inl e \<Rightarrow> on_exception env e (AsPath file_path) tr3
                                                 | Inr tr' \<Rightarrow>
                                                     (Inr (True, Some filename, asset_id), tr')))
                                         else
                                           (case py_print env
                                                   (FailedUpload filename (status_code response2)
                                                      (body_text response2)) tr3 of
                                              Inl e \<Rightarrow> on_exception env e (AsPath file_path) tr3
                                            | Inr tr' \<Rightarrow> (Inr (False, None, JNull), tr')))))))"

section \<open>The orchestrator\<close>

text \<open>One element of \<open>filename_mapping\<close>: the \<open>dict\<close> of lines 119 to 123.\<close>

record entry =
  index :: nat
  original_name :: "pystr option"
  asset_id :: json

text \<open>The variables of the loop.\<close>

record loop_state =
  success_count :: nat
  fail_count :: nat
  filename_mapping :: "entry list"

text \<open>
  Lines 110 to 125: \<open>for idx, file_path in enumerate(file_paths)\<close>. An exception that leaves
  \<open>upload_to_release\<close>, or that the \<open>print\<close> of line 112 raises, leaves the loop.
\<close>

fun run_loop ::
  "env \<Rightarrow> pystr \<Rightarrow> pystr \<Rightarrow> pystr \<Rightarrow> pystr \<Rightarrow> nat \<Rightarrow> pystr list \<Rightarrow> loop_state \<Rightarrow> event list
   \<Rightarrow> (exn + loop_state) \<times> event list"
where
  "run_loop env token owner repo tag_name idx [] st tr = (Inr st, tr)"
| "run_loop env token owner repo tag_name idx (file_path # rest) st tr =
     (let ex = path_exists env tr file_path;
          tr1 = tr @ [Exists file_path ex]
      in if \<not> ex then
           (case py_print env (FileNotFound file_path) tr1 of
              Inl e \<Rightarrow> (Inl e, tr1)
            | Inr tr2 \<Rightarrow>
                run_loop env token owner repo tag_name (Suc idx) rest
                  (st\<lparr>fail_count := fail_count st + 1\<rparr>) tr2)
         else
           (case upload_to_release env tr1 token owner repo tag_name file_path of
              (Inl e, tr2) \<Rightarrow> (Inl e, tr2)
            | (Inr (success, name, aid), tr2) \<Rightarrow>
                if success then
                  run_loop env token owner repo tag_name (Suc idx) rest
                    (st\<lparr>success_count := success_count st + 1,
                        filename_mapping := filename_mapping st
                          @ [\<lparr>index = idx, original_name = name, asset_id = aid\<rparr>]\<rparr>) tr2
                else
                  run_loop env token owner repo tag_name (Suc idx) rest
                    (st\<lparr>fail_count := fail_count st + 1\<rparr>) tr2))"

text \<open>The value \<open>json.dumps\<close> receives: a list of dicts with three keys.\<close>

definition entry_json :: "entry \<Rightarrow> json" where
  "entry_json e =
     JObj [(lit ''index'', JInt (int (index e))),
           (lit ''original_name'', (case original_name e of None \<Rightarrow> JNull | Some s \<Rightarrow> JStr s)),
           (lit ''asset_id'', asset_id e)]"

definition mapping_json :: "entry list \<Rightarrow> json" where
  "mapping_json m = JArr (map entry_json m)"

text \<open>
  How the process ends: \<open>sys.exit(1)\<close> of line 98, \<open>sys.exit\<close> of line 138 with its
  argument and the final values of the loop's variables, or an exception that nothing
  catches. Python ends with status 1 in the last case.
\<close>

datatype outcome =
    UsageExit
  | Finished nat loop_state
  | Uncaught exn

fun exit_status :: "outcome \<Rightarrow> nat" where
  "exit_status UsageExit = 1"
| "exit_status (Finished code st) = code"
| "exit_status (Uncaught e) = 1"

text \<open>Lines 127 to 138. An exception that a \<open>print\<close> raises ends the program.\<close>

definition report :: "env \<Rightarrow> loop_state \<Rightarrow> event list \<Rightarrow> outcome \<times> event list" where
  "report env st tr =
     (case py_print env (Results (success_count st) (fail_count st)) tr of
        Inl e \<Rightarrow> (Uncaught e, tr)
      | Inr tr1 \<Rightarrow>
          (let code = (if fail_count st = 0 then 0 else 1)
           in if filename_mapping st \<noteq> [] then
                (case py_print env MappingStart tr1 of
                   Inl e \<Rightarrow> (Uncaught e, tr1)
                 | Inr tr2 \<Rightarrow>
                     (let json_str = dumps (mapping_json (filename_mapping st))
                      in case utf8_encode json_str of
                           Inl e \<Rightarrow> (Uncaught e, tr2)
                         | Inr bs \<Rightarrow>
                             (case py_print env (Payload (b64encode bs)) tr2 of
                                Inl e \<Rightarrow> (Uncaught e, tr2)
                              | Inr tr3 \<Rightarrow>
                                  (case py_print env MappingEnd tr3 of
                                     Inl e \<Rightarrow> (Uncaught e, tr3)
                                   | Inr tr4 \<Rightarrow> (Finished code st, tr4)))))
              else (Finished code st, tr1)))"

text \<open>Lines 95 to 138: the program, on \<open>sys.argv\<close>.\<close>

definition main :: "env \<Rightarrow> pystr list \<Rightarrow> outcome \<times> event list" where
  "main env argv =
     (if length argv < 5 then
        (case py_print env Usage [] of
           Inl e \<Rightarrow> (Uncaught e, [])
         | Inr tr \<Rightarrow> (UsageExit, tr))
      else
        (let token = argv ! 1;
             owner = argv ! 2;
             repo = argv ! 3;
             tag_name = argv ! 4;
             file_paths = drop 5 argv
         in case run_loop env token owner repo tag_name 0 file_paths
                   \<lparr>success_count = 0, fail_count = 0, filename_mapping = []\<rparr> [] of
              (Inl e, tr) \<Rightarrow> (Uncaught e, tr)
            | (Inr st, tr) \<Rightarrow> report env st tr))"

section \<open>The retrying session\<close>

text \<open>
  Lines 13 to 33: \<open>create_retry_session\<close> builds the retry policy and mounts it for both
  URL schemes; the session is represented by that policy.
\<close>

record retry =
  retry_total :: nat
  retry_read :: nat
  retry_connect :: nat
  backoff_factor :: nat
  status_forcelist :: "int list"
  allowed_methods :: "pystr list"

definition create_retry_session :: "nat \<Rightarrow> nat \<Rightarrow> int list option \<Rightarrow> retry" where
  "create_retry_session retries backoff status_list =
     \<lparr>retry_total = retries,
      retry_read = retries,
      retry_connect = retries,
      backoff_factor = backoff,
      status_forcelist = (case status_list of None \<Rightarrow> [429, 500, 502, 503, 504] | Some l \<Rightarrow> l),
      allowed_methods = [lit ''HEAD'', lit ''GET'', lit ''PUT'', lit ''DELETE'', lit ''OPTIONS'',
                         lit ''TRACE'', lit ''POST'']\<rparr>"

text \<open>Line 41: \<open>create_retry_session()\<close> with the default arguments.\<close>

definition default_session :: retry where
  "default_session = create_retry_session 5 1 None"

text \<open>What one attempt of a request meets: a response, or a failure of the transport.\<close>

datatype attempt = Answered response | ConnectFailed pystr | ReadFailed pystr

text \<open>
  Modelled from the spec: the retry loop of the HTTP library (\<open>urllib3.util.retry.Retry\<close>
  behind \<open>requests.adapters.HTTPAdapter\<close>), which is not part of the source. Section 4.1: a
  request that receives a status of the retryable set, or fails at the connection or read
  level, is retried up to the configured total; a response with any other status is
  returned as it is; when the retries are used up the failure is raised. \<open>srv i\<close> is what
  attempt number \<open>i\<close> meets; \<open>t\<close>, \<open>c\<close> and \<open>r\<close> are the retries left in total, for
  connection failures and for read failures.
\<close>

fun retry_from ::
  "retry \<Rightarrow> pystr \<Rightarrow> (nat \<Rightarrow> attempt) \<Rightarrow> nat \<Rightarrow> nat \<Rightarrow> nat \<Rightarrow> nat \<Rightarrow> exn + response"
where
  "retry_from cfg method srv i 0 c r =
     (case srv i of
        Answered resp \<Rightarrow>
          if status_code resp \<in> set (status_forcelist cfg) \<and> method \<in> set (allowed_methods cfg)
          then Inl (RequestException (lit ''too many error responses''))
          else Inr resp
      | ConnectFailed m \<Rightarrow> Inl (RequestException m)
      | ReadFailed m \<Rightarrow> Inl (RequestException m))"
| "retry_from cfg method srv i (Suc t) c r =
     (case srv i of
        Answered resp \<Rightarrow>
          if status_code resp \<in> set (status_forcelist cfg) \<and> method \<in> set (allowed_methods cfg)
          then retry_from cfg method srv (Suc i) t c r
          else Inr resp
      | ConnectFailed m \<Rightarrow>
          if c = 0 then Inl (RequestException m)
          else retry_from cfg method srv (Suc i) t (c - 1) r
      | ReadFailed m \<Rightarrow>
          if r = 0 \<or> method \<notin> set (allowed_methods cfg) then Inl (RequestException m)
          else retry_from cfg method srv (Suc i) t c (r - 1))"

definition session_request :: "retry \<Rightarrow> pystr \<Rightarrow> (nat \<Rightarrow> attempt) \<Rightarrow> exn + response" where
  "session_request cfg method srv =
     retry_from cfg method srv 0 (retry_total cfg) (retry_connect cfg) (retry_read cfg)"

section \<open>Decoding\<close>

text \<open>
  The inverse operations the properties of the encodings are stated with. They are the
  standard decoders, not part of the program.
\<close>

subsection \<open>Percent-decoding (RFC 3986) and strict UTF-8 decoding\<close>

definition hex_val :: "nat \<Rightarrow> nat option" where
  "hex_val c =
     (if 48 \<le> c \<and> c \<le> 57 then Some (c - 48)
      else if 65 \<le> c \<and> c \<le> 70 then Some (c - 55)
      else if 97 \<le> c \<and> c \<le> 102 then Some (c - 87)
      else None)"

text \<open>A \<open>%\<close> with two hexadecimal digits is one byte; every other character stands for itself.\<close>

fun unquote_to_bytes :: "pystr \<Rightarrow> nat list" where
  "unquote_to_bytes (c # h # l # rest) =
     (if c = 37 then
        (case (hex_val h, hex_val l) of
           (Some a, Some b) \<Rightarrow> (16 * a + b) # unquote_to_bytes rest
         | _ \<Rightarrow> c # unquote_to_bytes (h # l # rest))
      else c # unquote_to_bytes (h # l # rest))"
| "unquote_to_bytes (c # cs) = c # unquote_to_bytes cs"
| "unquote_to_bytes [] = []"

definition is_cont :: "nat \<Rightarrow> bool" where
  "is_cont b \<longleftrightarrow> 128 \<le> b \<and> b < 192"

text \<open>
  Strict UTF-8: continuation bytes are checked, and an over-long form, a surrogate and a
  value from \<open>0x110000\<close> on are refused.
\<close>

fun utf8_decode :: "nat list \<Rightarrow> pystr option" where
  "utf8_decode [] = Some []"
| "utf8_decode (b0 # bs) =
     (if b0 < 128 then map_option ((#) b0) (utf8_decode bs)
      else if 192 \<le> b0 \<and> b0 < 224 then
        (case bs of
           b1 # rest \<Rightarrow>
             (let c = (b0 - 192) * 64 + (b1 - 128)
              in if is_cont b1 \<and> 128 \<le> c then map_option ((#) c) (utf8_decode rest) else None)
         | _ \<Rightarrow> None)
      else if 224 \<le> b0 \<and> b0 < 240 then
        (case bs of
           b1 # b2 # rest \<Rightarrow>
             (let c = (b0 - 224) * 4096 + (b1 - 128) * 64 + (b2 - 128)
              in if is_cont b1 \<and> is_cont b2 \<and> 2048 \<le> c \<and> \<not> (55296 \<le> c \<and> c < 57344)
                 then map_option ((#) c) (utf8_decode rest) else None)
         | _ \<Rightarrow> None)
      else if 240 \<le> b0 \<and> b0 < 248 then
        (case bs of
           b1 # b2 # b3 # rest \<Rightarrow>
             (let c = (b0 - 240) * 262144 + (b1 - 128) * 4096 + (b2 - 128) * 64 + (b3 - 128)
              in if is_cont b1 \<and> is_cont b2 \<and> is_cont b3 \<and> 65536 \<le> c \<and> c < 1114112
                 then map_option ((#) c) (utf8_decode rest) else None)
         | _ \<Rightarrow> None)
      else None)"

definition unquote :: "pystr \<Rightarrow> pystr option" where
  "unquote s = utf8_decode (unquote_to_bytes s)"

subsection \<open>Base64 decoding (RFC 4648)\<close>

definition b64_index :: "nat \<Rightarrow> nat option" where
  "b64_index c =
     (if 65 \<le> c \<and> c \<le> 90 then Some (c - 65)
      else if 97 \<le> c \<and> c \<le> 122 then Some (c - 71)
      else if 48 \<le> c \<and> c \<le> 57 then Some (c + 4)
      else if c = 43 then Some 62
      else if c = 47 then Some 63
      else None)"

fun b64decode :: "nat list \<Rightarrow> nat list option" where
  "b64decode [] = Some []"
| "b64decode (w # x # y # z # rest) =
     (case (b64_index w, b64_index x) of
        (Some p, Some q) \<Rightarrow>
          if y = 61 \<and> z = 61 \<and> rest = [] then Some [p * 4 + q div 16]
          else
            (case b64_index y of
               None \<Rightarrow> None
             | Some r \<Rightarrow>
                 if z = 61 \<and> rest = [] then Some [p * 4 + q div 16, (q mod 16) * 16 + r div 4]
                 else
                   (case b64_index z of
                      None \<Rightarrow> None
                    | Some s \<Rightarrow>
                        map_option
                          ((@) [p * 4 + q div 16, (q mod 16) * 16 + r div 4, (r mod 4) * 64 + s])
                          (b64decode rest)))
      | _ \<Rightarrow> None)"
| "b64decode cs = None"

section \<open>Observations on runs\<close>

text \<open>A Unicode scalar value: a code point that is not a surrogate.\<close>

definition scalar :: "nat \<Rightarrow> bool" where
  "scalar c \<longleftrightarrow> c < 1114112 \<and> \<not> (55296 \<le> c \<and> c < 57344)"

text \<open>The lines that report a failure, and the events a run is measured by.\<close>

fun failure_line :: "line \<Rightarrow> bool" where
  "failure_line (FileNotFound p) = True"
| "failure_line (FailedGetRelease s t) = True"
| "failure_line (FailedUpload n s t) = True"
| "failure_line (ExceptionDuringUpload p m) = True"
| "failure_line l = False"

fun is_failure :: "event \<Rightarrow> bool" where
  "is_failure (Print l) = failure_line l"
| "is_failure e = False"

fun is_get :: "event \<Rightarrow> bool" where
  "is_get (Get u h r) = True"
| "is_get e = False"

fun is_found :: "event \<Rightarrow> bool" where
  "is_found (Exists p b) = b"
| "is_found e = False"

fun is_uploaded :: "event \<Rightarrow> bool" where
  "is_uploaded (Print (Uploaded n)) = True"
| "is_uploaded e = False"

fun is_payload :: "event \<Rightarrow> bool" where
  "is_payload (Print (Payload p)) = True"
| "is_payload e = False"

definition count_events :: "(event \<Rightarrow> bool) \<Rightarrow> event list \<Rightarrow> nat" where
  "count_events P tr = length (filter P tr)"

text \<open>The URL of the releases-by-tag endpoint, as line 44 builds it.\<close>

definition release_url :: "pystr \<Rightarrow> pystr \<Rightarrow> pystr \<Rightarrow> pystr" where
  "release_url owner repo tag_name =
     lit ''https://api.github.com/repos/'' @ owner @ lit ''/'' @ repo
     @ lit ''/releases/tags/'' @ tag_name"

fun gets_go_to :: "pystr \<Rightarrow> event list \<Rightarrow> bool" where
  "gets_go_to u [] = True"
| "gets_go_to u (Get url hs a # tr) = (url = u \<and> gets_go_to u tr)"
| "gets_go_to u (e # tr) = gets_go_to u tr"

text \<open>
  Every upload request uses the lookup made just before it: \<open>own_lookup cur tr\<close> reads the
  events with \<open>cur\<close> the response of the latest lookup that no upload has used yet. An
  upload request needs such a response, must go to its upload URL followed by \<open>?name=\<close>,
  and uses it up.
\<close>

fun lookup_after :: "response option \<Rightarrow> event list \<Rightarrow> response option" where
  "lookup_after cur [] = cur"
| "lookup_after cur (Get url hs a # tr) =
     lookup_after (case a of Inl e \<Rightarrow> None | Inr r \<Rightarrow> Some r) tr"
| "lookup_after cur (Post url hs d a # tr) = lookup_after None tr"
| "lookup_after cur (e # tr) = lookup_after cur tr"

definition url_from_lookup :: "response option \<Rightarrow> pystr \<Rightarrow> bool" where
  "url_from_lookup cur url =
     (case cur of
        None \<Rightarrow> False
      | Some r \<Rightarrow>
          (case release_upload_url r of
             Inl e \<Rightarrow> False
           | Inr u \<Rightarrow> take (length u + 6) url = u @ lit ''?name=''))"

fun own_lookup :: "response option \<Rightarrow> event list \<Rightarrow> bool" where
  "own_lookup cur [] = True"
| "own_lookup cur (Get url hs a # tr) = own_lookup (case a of Inl e \<Rightarrow> None | Inr r \<Rightarrow> Some r) tr"
| "own_lookup cur (Post url hs d a # tr) = (url_from_lookup cur url \<and> own_lookup None tr)"
| "own_lookup cur (e # tr) = own_lookup cur tr"

text \<open>
  The identifier of an accepted upload: of an upload request that was answered with 200 or
  201 and a body whose \<open>.get('id')\<close> returns.
\<close>

fun accepted_id :: "event \<Rightarrow> json option" where
  "accepted_id (Post url hs d (Inr r)) =
     (if status_code r = 200 \<or> status_code r = 201 then
        (case response_asset_id r of Inl e \<Rightarrow> None | Inr aid \<Rightarrow> Some aid)
      else None)"
| "accepted_id e = None"

definition accepted_upload :: "event \<Rightarrow> json \<Rightarrow> bool" where
  "accepted_upload e aid \<longleftrightarrow> accepted_id e = Some aid"

text \<open>The identifiers of the accepted uploads among some events, in their order.\<close>

fun accepted_ids :: "event list \<Rightarrow> json list" where
  "accepted_ids [] = []"
| "accepted_ids (e # tr) =
     (case accepted_id e of None \<Rightarrow> accepted_ids tr | Some aid \<Rightarrow> aid # accepted_ids tr)"

text \<open>The paths that were tested with \<open>os.path.exists\<close>, in their order.\<close>

fun tested :: "event list \<Rightarrow> pystr list" where
  "tested [] = []"
| "tested (Exists p b # tr) = p # tested tr"
| "tested (e # tr) = tested tr"

text \<open>
  The succeeded uploads of a run, read from its events. The loop tests one path after the
  other, so the test number \<open>k\<close> (counting from \<open>i\<close>) starts the work on input path \<open>k\<close>,
  and an upload accepted before the next test is the upload of that path. Each succeeded
  upload is listed with the position of its path, the name of the file (the last component
  of the path) and the identifier the server gave.
\<close>

fun uploads_by_path ::
  "nat \<Rightarrow> (nat \<times> pystr) option \<Rightarrow> event list \<Rightarrow> (nat \<times> pystr \<times> json) list"
where
  "uploads_by_path i cur [] = []"
| "uploads_by_path i cur (Exists p b # tr) = uploads_by_path (Suc i) (Some (i, p)) tr"
| "uploads_by_path i cur (e # tr) =
     (case (cur, accepted_id e) of
        (Some (k, p), Some aid) \<Rightarrow> (k, path_name p, aid) # uploads_by_path i cur tr
      | _ \<Rightarrow> uploads_by_path i cur tr)"

text \<open>The entry of the mapping, and the JSON object, for a succeeded upload.\<close>

definition entry_of :: "nat \<times> pystr \<times> json \<Rightarrow> entry" where
  "entry_of u = \<lparr>index = fst u, original_name = Some (fst (snd u)), asset_id = snd (snd u)\<rparr>"

definition record_of :: "nat \<times> pystr \<times> json \<Rightarrow> json" where
  "record_of u =
     JObj [(lit ''index'', JInt (int (fst u))),
           (lit ''original_name'', JStr (fst (snd u))),
           (lit ''asset_id'', snd (snd u))]"

text \<open>
  What one call of \<open>upload_to_release\<close> adds to the events: one lookup of the release at
  the releases-by-tag URL, no test for a file, no payload line, at most one upload request
  and that one to the URL its own lookup gave; and either one success line (with the name
  of the file and the identifier of the one accepted upload) or one failure line and no
  accepted upload, or, when an exception leaves the call, neither.
\<close>

definition effect_ok ::
  "pystr \<Rightarrow> pystr \<Rightarrow> pystr \<Rightarrow> pystr \<Rightarrow> upload_result \<Rightarrow> event list \<Rightarrow> bool"
where
  "effect_ok owner repo tag_name file_path res eff \<longleftrightarrow>
     count_events is_get eff = 1 \<and> count_events is_found eff = 0
     \<and> count_events is_payload eff = 0
     \<and> tested eff = []
     \<and> gets_go_to (release_url owner repo tag_name) eff
     \<and> (\<forall>cur. own_lookup cur eff)
     \<and> (\<forall>e aid. e \<in> set eff \<longrightarrow> accepted_upload e aid
            \<longrightarrow> res = Inr (True, Some (path_name file_path), aid))
     \<and> (case res of
           Inl e \<Rightarrow> count_events is_failure eff = 0 \<and> count_events is_uploaded eff = 0
                    \<and> accepted_ids eff = []
         | Inr (ok, name, aid) \<Rightarrow>
             if ok then count_events is_failure eff = 0 \<and> count_events is_uploaded eff = 1
                        \<and> name = Some (path_name file_path)
                        \<and> accepted_ids eff = [aid]
                        \<and> (\<exists>e\<in>set eff. accepted_upload e aid)
             else count_events is_failure eff = 1 \<and> count_events is_uploaded eff = 0
                  \<and> name = None \<and> aid = JNull \<and> accepted_ids eff = [])"

definition upload_post ::
  "event list \<Rightarrow> pystr \<Rightarrow> pystr \<Rightarrow> pystr \<Rightarrow> pystr \<Rightarrow> upload_result \<times> event list \<Rightarrow> bool"
where
  "upload_post tr owner repo tag_name file_path out \<longleftrightarrow>
     (\<exists>eff. snd out = tr @ eff \<and> effect_ok owner repo tag_name file_path (fst out) eff)"

text \<open>
  The entries the loop adds for the paths \<open>paths\<close>, numbered from \<open>idx\<close>: their indices
  increase, each index is the position of a path, the name is the last component of that
  path, and the identifier is that of an accepted upload among the events.
\<close>

definition entries_ok :: "nat \<Rightarrow> pystr list \<Rightarrow> event list \<Rightarrow> entry list \<Rightarrow> bool" where
  "entries_ok idx paths tr new \<longleftrightarrow>
     sorted_wrt (<) (map index new)
     \<and> (\<forall>e\<in>set new.
           idx \<le> index e \<and> index e < idx + length paths
           \<and> original_name e = Some (path_name (paths ! (index e - idx)))
           \<and> (\<exists>ev\<in>set tr. accepted_upload ev (asset_id e)))"

section \<open>Example runs\<close>

text \<open>A release lookup answered with 200 and an upload URL template.\<close>

definition ok_release :: response where
  "ok_release =
     \<lparr>status_code = 200, body_text = [],
      body_json = Inr (JObj [(lit ''upload_url'', JStr (lit ''https://up/assets{?name,label}''))])\<rparr>"

text \<open>An upload answered with 201 and the identifier \<open>n\<close>.\<close>

definition created :: "int \<Rightarrow> response" where
  "created n = \<lparr>status_code = 201, body_text = [], body_json = Inr (JObj [(lit ''id'', JInt n)])\<rparr>"

text \<open>Every file exists and every request succeeds; the standard output is strict.\<close>

definition env_ok :: env where
  "env_ok =
     \<lparr>path_exists = (\<lambda>tr p. True),
      session_get = (\<lambda>tr url hs. Inr ok_release),
      open_rb = (\<lambda>tr p. Inr [1, 2, 3]),
      session_post = (\<lambda>tr url hs d. Inr (created 7)),
      guess_type = (\<lambda>n. None),
      stdout_errors = Strict\<rparr>"

text \<open>
  The file \<open>gone.bin\<close> does not exist, and the upload of \<open>big.bin\<close> is refused with 422;
  the standard output passes surrogates.
\<close>

definition env_mixed :: env where
  "env_mixed =
     \<lparr>path_exists = (\<lambda>tr p. p \<noteq> lit ''gone.bin''),
      session_get = (\<lambda>tr url hs. Inr ok_release),
      open_rb = (\<lambda>tr p. Inr (if p = lit ''big.bin'' then [0] else [1, 2, 3])),
      session_post = (\<lambda>tr url hs d.
        if d = [0] then Inr \<lparr>status_code = 422, body_text = lit ''too big'',
                              body_json = Inl (OtherException [])\<rparr>
        else Inr (created 7)),
      guess_type = (\<lambda>n. None),
      stdout_errors = SurrogatePass\<rparr>"

text \<open>
  The release lookup is answered with 200 and the JSON object \<open>{}\<close>; the standard output
  is strict.
\<close>

definition env_no_upload_url :: env where
  "env_no_upload_url =
     \<lparr>path_exists = (\<lambda>tr p. True),
      session_get = (\<lambda>tr url hs. Inr \<lparr>status_code = 200, body_text = lit ''{}'',
                                         body_json = Inr (JObj [])\<rparr>),
      open_rb = (\<lambda>tr p. Inr [1, 2, 3]),
      session_post = (\<lambda>tr url hs d. Inr (created 7)),
      guess_type = (\<lambda>n. None),
      stdout_errors = Strict\<rparr>"

text \<open>
  The upload is answered with 201 and a JSON object without \<open>id\<close>; the standard output
  passes surrogates.
\<close>

definition env_no_id :: env where
  "env_no_id =
     \<lparr>path_exists = (\<lambda>tr p. True),
      session_get = (\<lambda>tr url hs. Inr ok_release),
      open_rb = (\<lambda>tr p. Inr [1, 2, 3]),
      session_post = (\<lambda>tr url hs d.
        Inr \<lparr>status_code = 201, body_text = [],
             body_json = Inr (JObj [(lit ''name'', JStr (lit ''a.txt''))])\<rparr>),
      guess_type = (\<lambda>n. None),
      stdout_errors = SurrogatePass\<rparr>"

text \<open>The five words before the file paths, and three command lines.\<close>

definition argv_none :: "pystr list" where
  "argv_none = [lit ''upload_to_release.py'', lit ''tok'', lit ''own'', lit ''repo'', lit ''v1'']"

definition argv_two :: "pystr list" where
  "argv_two = argv_none @ [lit ''a.txt'', lit ''b.txt'']"

definition argv_mixed :: "pystr list" where
  "argv_mixed = argv_none @ [lit ''gone.bin'', lit ''a.txt'', lit ''big.bin'']"

text \<open>The file name \<open>qof vav bet tsadi-sofit . p d f\<close> of the spec's scenario.\<close>

definition hebrew_pdf :: pystr where
  "hebrew_pdf = [1511, 1493, 1489, 1509, 46, 112, 100, 102]"

text \<open>A name with the surrogate \<open>0xDC80\<close>, as a file name with the byte \<open>0x80\<close> arrives.\<close>

definition surrogate_txt :: pystr where
  "surrogate_txt = [56448, 46, 116, 120, 116]"

text \<open>A server that answers 503, then 429, then 200, and the URL of the lookup.\<close>

definition flaky_server :: "nat \<Rightarrow> attempt" where
  "flaky_server i =
     (if i = 0 then Answered \<lparr>status_code = 503, body_text = [], body_json = Inl (OtherException [])\<rparr>
      else if i = 1 then Answered \<lparr>status_code = 429, body_text = [], body_json = Inl (OtherException [])\<rparr>
      else Answered ok_release)"

definition argv_one :: "pystr list" where
  "argv_one = argv_none @ [lit ''a.txt'']"

text \<open>As \<open>env_ok\<close>, with a standard output that passes surrogates.\<close>

definition env_ok_pass :: env where
  "env_ok_pass = env_ok\<lparr>stdout_errors := SurrogatePass\<rparr>"

section \<open>Properties of the encodings\<close>

lemma hex_val_upper: "d < 16 \<Longrightarrow> hex_val (hex_upper d) = Some d"
  by (auto simp: hex_val_def hex_upper_def)

lemma unquote_quote_byte:
  "b < 256 \<Longrightarrow> unquote_to_bytes (quote_byte b @ xs) = b # unquote_to_bytes xs"
proof (cases "always_safe b")
  case True
  then have "b \<noteq> 37" by (auto simp: always_safe_def)
  with True show ?thesis by (cases xs rule: unquote_to_bytes.cases) (auto simp: quote_byte_def)
next
  case False
  assume "b < 256"
  then have "b div 16 < 16" "b mod 16 < 16" by auto
  with False show ?thesis
    by (simp add: quote_byte_def hex_val_upper)
qed

lemma unquote_quote_bytes:
  "\<forall>b\<in>set bs. b < 256 \<Longrightarrow> unquote_to_bytes (quote_from_bytes bs) = bs"
  by (induction bs) (simp_all add: quote_from_bytes_def unquote_quote_byte)

lemma utf8_char_bytes: "utf8_char c = Inr bs \<Longrightarrow> \<forall>b\<in>set bs. b < 256"
  by (auto simp: utf8_char_def split: if_splits)

lemma recombine2: "(c::nat) div 64 * 64 + c mod 64 = c"
  by simp

lemma recombine3: "(c::nat) div 4096 * 4096 + c div 64 mod 64 * 64 + c mod 64 = c"
proof -
  define d where "d = c div 64"
  have "d div 64 * 64 + d mod 64 = d" by simp
  then have "(d div 64 * 64 + d mod 64) * 64 = d * 64" by (rule arg_cong)
  then have "d div 64 * 4096 + d mod 64 * 64 = d * 64" by (simp only: add_mult_distrib mult.assoc)
  moreover have "c div 4096 = d div 64" by (simp add: d_def div_mult2_eq)
  moreover have "d * 64 + c mod 64 = c" by (simp add: d_def)
  ultimately show ?thesis by (simp add: d_def)
qed

lemma recombine4:
  "(c::nat) div 262144 * 262144 + c div 4096 mod 64 * 4096 + c div 64 mod 64 * 64 + c mod 64 = c"
proof -
  define d where "d = c div 4096"
  have "d div 64 * 64 + d mod 64 = d" by simp
  then have "(d div 64 * 64 + d mod 64) * 4096 = d * 4096" by (rule arg_cong)
  then have "d div 64 * 262144 + d mod 64 * 4096 = d * 4096" by (simp only: add_mult_distrib mult.assoc)
  moreover have "c div 262144 = d div 64" by (simp add: d_def div_mult2_eq)
  ultimately have "c div 262144 * 262144 + c div 4096 mod 64 * 4096 = c div 4096 * 4096"
    by (simp add: d_def)
  then show ?thesis using recombine3 [of c] by simp
qed

lemma utf8_decode_char:
  assumes "utf8_char c = Inr bs"
  shows "utf8_decode (bs @ rest) = map_option ((#) c) (utf8_decode rest)"
proof -
  consider "c < 128" | "128 \<le> c" "c < 2048" | "2048 \<le> c" "c < 65536" | "65536 \<le> c"
    by linarith
  then show ?thesis
  proof cases
    case 1
    with assms show ?thesis by (auto simp: utf8_char_def)
  next
    case 2
    then have "c div 64 < 32" by simp
    with 2 assms show ?thesis
      by (auto simp: utf8_char_def is_cont_def Let_def recombine2)
  next
    case 3
    then have "c div 4096 < 16" by simp
    with 3 assms show ?thesis
      by (auto simp: utf8_char_def is_cont_def Let_def recombine3 split: if_splits)
  next
    case 4
    with assms have lt: "c < 1114112" by (auto simp: utf8_char_def split: if_splits)
    then have "c div 262144 < 8" by simp
    with 4 lt assms show ?thesis
      by (auto simp: utf8_char_def is_cont_def Let_def recombine4 split: if_splits)
  qed
qed

lemma utf8_decode_encode: "utf8_encode s = Inr bs \<Longrightarrow> utf8_decode bs = Some s"
proof (induction s arbitrary: bs)
  case Nil
  then show ?case by simp
next
  case (Cons c cs)
  then show ?case
    by (auto simp: utf8_decode_char split: sum.splits)
qed

lemma utf8_encode_bytes: "utf8_encode s = Inr bs \<Longrightarrow> \<forall>b\<in>set bs. b < 256"
proof (induction s arbitrary: bs)
  case Nil
  then show ?case by simp
next
  case (Cons c cs)
  then show ?case
    by (fastforce split: sum.splits dest: utf8_char_bytes)
qed


lemma utf8_char_scalar: "scalar c \<Longrightarrow> \<exists>bs. utf8_char c = Inr bs"
  by (auto simp: scalar_def utf8_char_def)

lemma utf8_encode_scalar: "\<forall>c\<in>set s. scalar c \<Longrightarrow> \<exists>bs. utf8_encode s = Inr bs"
proof (induction s)
  case Nil
  then show ?case by simp
next
  case (Cons c cs)
  then obtain bs where "utf8_encode cs = Inr bs" by auto
  moreover from Cons.prems obtain b where "utf8_char c = Inr b" using utf8_char_scalar by auto
  ultimately show ?case by simp
qed

lemma b64_index_char: "i < 64 \<Longrightarrow> b64_index (b64_char i) = Some i"
  by (auto simp: b64_index_def b64_char_def)

lemma b64_char_not_pad: "i < 64 \<Longrightarrow> b64_char i \<noteq> 61"
  by (auto simp: b64_char_def)

lemma b64decode_encode: "\<forall>b\<in>set bs. b < 256 \<Longrightarrow> b64decode (b64encode bs) = Some bs"
proof (induction bs rule: b64encode.induct)
  case (1 a b c rest)
  then have *: "a div 4 < 64" "a mod 4 * 16 + b div 16 < 64" "b mod 16 * 4 + c div 64 < 64" "c mod 64 < 64"
    and small: "b div 16 < 16" "c div 64 < 4"
    by auto
  have "a div 4 * 4 + a mod 4 = a" "b div 16 * 16 + b mod 16 = b" "c div 64 * 64 + c mod 64 = c"
    by simp_all
  with 1 small * show ?case by (simp add: b64_index_char b64_char_not_pad)
next
  case (2 a b)
  then have "a div 4 < 64" "a mod 4 * 16 + b div 16 < 64" "b mod 16 * 4 < 64" "b div 16 < 16"
    by auto
  with 2 show ?case by (simp add: b64_index_char b64_char_not_pad)
next
  case (3 a)
  then have "a div 4 < 64" "a mod 4 * 16 < 64" by auto
  with 3 show ?case by (simp add: b64_index_char b64_char_not_pad)
next
  case 4
  then show ?case by simp
qed


section \<open>Properties of printing\<close>

lemma utf8_encode_ascii: "\<forall>c\<in>set s. c < 128 \<Longrightarrow> utf8_encode s = Inr s"
  by (induction s) (simp_all add: utf8_char_def)

lemma utf8_encode_append:
  "utf8_encode (xs @ ys) =
     (case utf8_encode xs of
        Inl e \<Rightarrow> Inl e
      | Inr a \<Rightarrow> (case utf8_encode ys of Inl e \<Rightarrow> Inl e | Inr b \<Rightarrow> Inr (a @ b)))"
  by (induction xs) (auto split: sum.splits)

lemma can_print_pass [simp]: "stdout_errors env = SurrogatePass \<Longrightarrow> can_print env l"
  by (simp add: can_print_def)

lemma can_print_usage [simp]: "can_print env Usage"
proof -
  have "utf8_encode (render Usage) = Inr (render Usage)"
    by (rule utf8_encode_ascii) (simp add: lit_def)
  then show ?thesis by (simp add: can_print_def split: codec_errors.split)
qed

lemma can_print_uploaded [simp]: "\<not> isl (quote n) \<Longrightarrow> can_print env (Uploaded n)"
proof -
  assume "\<not> isl (quote n)"
  then obtain bs where a: "utf8_encode n = Inr bs"
    by (auto simp: quote_def split: sum.splits)
  have b: "utf8_encode (lit '' Successfully uploaded: '') = Inr (lit '' Successfully uploaded: '')"
    by (rule utf8_encode_ascii) (simp add: lit_def)
  have c: "utf8_encode [9989] = Inr [226, 156, 133]"
    by (simp add: utf8_char_def)
  have "utf8_encode ([9989] @ (lit '' Successfully uploaded: '' @ n))
          = Inr ([226, 156, 133] @ (lit '' Successfully uploaded: '' @ bs))"
    by (simp only: utf8_encode_append a b c sum.case)
  then have "utf8_encode (render (Uploaded n))
          = Inr ([226, 156, 133] @ (lit '' Successfully uploaded: '' @ bs))"
    by simp
  then show ?thesis
    by (simp add: can_print_def del: render.simps split: codec_errors.split)
qed

lemma results_not_encodable: "utf8_encode (render (Results a b)) = Inl UnicodeEncodeError"
  by (simp add: utf8_char_def)

lemma cannot_print_results [simp]:
  "stdout_errors env = Strict \<Longrightarrow> \<not> can_print env (Results a b)"
  using results_not_encodable [of a b] by (simp add: can_print_def del: render.simps)

section \<open>Properties of the uploader and the loop\<close>

lemma count_events_append [simp]:
  "count_events P (xs @ ys) = count_events P xs + count_events P ys"
  by (simp add: count_events_def)

lemma count_events_Nil [simp]: "count_events P [] = 0"
  by (simp add: count_events_def)

lemma count_events_Cons [simp]:
  "count_events P (x # xs) = (if P x then 1 else 0) + count_events P xs"
  by (simp add: count_events_def)

lemma gets_go_to_append [simp]: "gets_go_to u (xs @ ys) \<longleftrightarrow> gets_go_to u xs \<and> gets_go_to u ys"
  by (induction u xs rule: gets_go_to.induct) auto

lemma own_lookup_append:
  "own_lookup cur (xs @ ys) \<longleftrightarrow> own_lookup cur xs \<and> own_lookup (lookup_after cur xs) ys"
  by (induction cur xs rule: own_lookup.induct) auto

lemma own_lookup_print [simp]: "own_lookup cur (xs @ [Print l]) = own_lookup cur xs"
  by (simp add: own_lookup_append)

lemma accepted_ids_append [simp]:
  "accepted_ids (xs @ ys) = accepted_ids xs @ accepted_ids ys"
  by (induction xs) (auto split: option.splits)

lemma tested_append [simp]: "tested (xs @ ys) = tested xs @ tested ys"
  by (induction xs rule: tested.induct) auto

lemma accepted_upload_in_ids: "e \<in> set tr \<Longrightarrow> accepted_upload e aid \<Longrightarrow> aid \<in> set (accepted_ids tr)"
  by (induction tr) (auto simp: accepted_upload_def split: option.splits)

lemma uploads_by_path_call:
  "tested xs = [] \<Longrightarrow>
   uploads_by_path i (Some (k, p)) (xs @ ys)
     = map (\<lambda>aid. (k, path_name p, aid)) (accepted_ids xs) @ uploads_by_path i (Some (k, p)) ys"
proof (induction xs)
  case Nil
  then show ?case by simp
next
  case (Cons e xs)
  then show ?case by (cases e) (auto split: option.splits)
qed

lemma url_from_lookup_own:
  "release_upload_url r = Inr u \<Longrightarrow> url_from_lookup (Some r) (u @ lit ''?name='' @ enc)"
  by (simp add: url_from_lookup_def lit_def)

lemma on_exception_post:
  assumes "count_events is_get pre = 1" "count_events is_found pre = 0"
    "count_events is_failure pre = 0" "count_events is_uploaded pre = 0"
    "count_events is_payload pre = 0" "tested pre = []"
    "gets_go_to (release_url owner repo tag_name) pre"
    "\<forall>cur. own_lookup cur pre" "accepted_ids pre = []"
    "\<forall>e aid. e \<in> set pre \<longrightarrow> \<not> accepted_upload e aid"
  shows "upload_post tr owner repo tag_name file_path (on_exception env e v (tr @ pre))"
  using assms
  by (cases e)
     (simp_all add: on_exception_def py_print_def upload_post_def effect_ok_def accepted_upload_def)

lemma upload_to_release_post:
  "upload_post tr owner repo tag_name file_path
     (upload_to_release env tr token owner repo tag_name file_path)"
  unfolding upload_to_release_def Let_def
  by (simp add: on_exception_post py_print_def release_url_def accepted_upload_def
        url_from_lookup_own split: sum.split)
     (auto simp add: upload_post_def effect_ok_def release_url_def accepted_upload_def
        url_from_lookup_own)

lemma upload_to_release_effect:
  assumes "upload_to_release env tr token owner repo tag_name file_path = (res, tr')"
  obtains eff where "tr' = tr @ eff" "effect_ok owner repo tag_name file_path res eff"
  using upload_to_release_post [of tr owner repo tag_name file_path env token] assms
  by (auto simp: upload_post_def)

text \<open>One round of the loop: the five ways it can go.\<close>

lemma run_loop_Cons_cases [consumes 1, case_names missing unprinted aborted uploaded failed]:
  assumes "run_loop env token owner repo tag_name idx (file_path # rest) st tr = (res, tr')"
  obtains
    (missing) "\<not> path_exists env tr file_path"
      "run_loop env token owner repo tag_name (Suc idx) rest (st\<lparr>fail_count := fail_count st + 1\<rparr>)
         (tr @ [Exists file_path False, Print (FileNotFound file_path)]) = (res, tr')"
  | (unprinted) "\<not> path_exists env tr file_path" "res = Inl UnicodeEncodeError"
      "tr' = tr @ [Exists file_path False]"
  | (aborted) e eff where "path_exists env tr file_path" "res = Inl e"
      "tr' = tr @ Exists file_path True # eff"
      "effect_ok owner repo tag_name file_path (Inl e) eff"
  | (uploaded) aid eff where "path_exists env tr file_path"
      "effect_ok owner repo tag_name file_path (Inr (True, Some (path_name file_path), aid)) eff"
      "run_loop env token owner repo tag_name (Suc idx) rest
         (st\<lparr>success_count := success_count st + 1,
             filename_mapping := filename_mapping st
               @ [\<lparr>index = idx, original_name = Some (path_name file_path), asset_id = aid\<rparr>]\<rparr>)
         (tr @ Exists file_path True # eff) = (res, tr')"
  | (failed) eff where "path_exists env tr file_path"
      "effect_ok owner repo tag_name file_path (Inr (False, None, JNull)) eff"
      "run_loop env token owner repo tag_name (Suc idx) rest (st\<lparr>fail_count := fail_count st + 1\<rparr>)
         (tr @ Exists file_path True # eff) = (res, tr')"
proof (cases "path_exists env tr file_path")
  case False
  show ?thesis
  proof (cases "can_print env (FileNotFound file_path)")
    case True
    with assms False show ?thesis using missing by (simp add: Let_def py_print_def)
  next
    case no: False
    with assms False show ?thesis using unprinted by (simp add: Let_def py_print_def)
  qed
next
  case True
  let ?tr1 = "tr @ [Exists file_path True]"
  obtain r tr2 where up: "upload_to_release env ?tr1 token owner repo tag_name file_path = (r, tr2)"
    by (cases "upload_to_release env ?tr1 token owner repo tag_name file_path")
  then obtain eff where eff: "tr2 = ?tr1 @ eff" "effect_ok owner repo tag_name file_path r eff"
    by (rule upload_to_release_effect)
  show ?thesis
  proof (cases r)
    case (Inl e)
    with assms True up have "res = Inl e" "tr' = tr2" by (simp_all add: Let_def)
    with eff True Inl show ?thesis using aborted by simp
  next
    case (Inr t)
    obtain ok name aid where t: "t = (ok, name, aid)" by (cases t)
    show ?thesis
    proof (cases ok)
      case ok: True
      with eff Inr t have name: "name = Some (path_name file_path)" by (simp add: effect_ok_def)
      from assms True up Inr t ok name have
        "run_loop env token owner repo tag_name (Suc idx) rest
           (st\<lparr>success_count := success_count st + 1,
               filename_mapping := filename_mapping st
                 @ [\<lparr>index = idx, original_name = Some (path_name file_path), asset_id = aid\<rparr>]\<rparr>)
           tr2 = (res, tr')"
        by (simp add: Let_def)
      with eff True Inr t ok name show ?thesis using uploaded by simp
    next
      case no: False
      with eff Inr t have "name = None" "aid = JNull" by (simp_all add: effect_ok_def)
      moreover from assms True up Inr t no have
        "run_loop env token owner repo tag_name (Suc idx) rest (st\<lparr>fail_count := fail_count st + 1\<rparr>)
           tr2 = (res, tr')"
        by (simp add: Let_def)
      ultimately show ?thesis using eff True Inr t no failed by simp
    qed
  qed
qed

text \<open>The events only grow.\<close>

lemma run_loop_extends:
  "run_loop env token owner repo tag_name idx paths st tr = (res, tr') \<Longrightarrow> \<exists>eff. tr' = tr @ eff"
proof (induction paths arbitrary: idx st tr)
  case Nil
  then show ?case by simp
next
  case (Cons file_path rest)
  from Cons.prems show ?case
  proof (cases rule: run_loop_Cons_cases)
    case missing
    from Cons.IH [OF missing(2)] show ?thesis by auto
  next
    case unprinted
    then show ?thesis by simp
  next
    case (aborted e eff)
    then show ?thesis by simp
  next
    case (uploaded aid eff)
    from Cons.IH [OF uploaded(3)] show ?thesis by auto
  next
    case (failed eff)
    from Cons.IH [OF failed(3)] show ?thesis by auto
  qed
qed

text \<open>
  The counters follow the lines: a lookup for each file found, a success for each success
  line, a failure for each failure line, and one of the two for each path.
\<close>

lemma run_loop_counts:
  assumes "run_loop env token owner repo tag_name idx paths st tr = (res, tr')"
  shows "count_events is_get tr' + count_events is_found tr
           = count_events is_get tr + count_events is_found tr'
         \<and> count_events is_payload tr' = count_events is_payload tr
         \<and> (\<forall>st'. res = Inr st' \<longrightarrow>
               success_count st' + count_events is_uploaded tr
                 = success_count st + count_events is_uploaded tr'
               \<and> fail_count st' + count_events is_failure tr
                 = fail_count st + count_events is_failure tr'
               \<and> success_count st' + fail_count st'
                 = success_count st + fail_count st + length paths)"
  using assms
proof (induction paths arbitrary: idx st tr)
  case Nil
  then show ?case by auto
next
  case (Cons file_path rest)
  from Cons.prems show ?case
  proof (cases rule: run_loop_Cons_cases)
    case missing
    from Cons.IH [OF missing(2)] show ?thesis by auto
  next
    case unprinted
    then show ?thesis by simp
  next
    case (aborted e eff)
    then show ?thesis by (auto simp: effect_ok_def)
  next
    case (uploaded aid eff)
    from Cons.IH [OF uploaded(3)] uploaded(2) show ?thesis by (auto simp: effect_ok_def)
  next
    case (failed eff)
    from Cons.IH [OF failed(3)] failed(2) show ?thesis by (auto simp: effect_ok_def)
  qed
qed

text \<open>Every lookup goes to the same URL, and every upload uses the lookup just before it.\<close>

lemma run_loop_lookups:
  assumes "run_loop env token owner repo tag_name idx paths st tr = (res, tr @ eff)"
  shows "gets_go_to (release_url owner repo tag_name) eff \<and> (\<forall>cur. own_lookup cur eff)"
  using assms
proof (induction paths arbitrary: idx st tr eff)
  case Nil
  then show ?case by simp
next
  case (Cons file_path rest)
  from Cons.prems show ?case
  proof (cases rule: run_loop_Cons_cases)
    case missing
    from run_loop_extends [OF missing(2)] obtain eff' where
      e: "tr @ eff = (tr @ [Exists file_path False, Print (FileNotFound file_path)]) @ eff'"
      by blast
    with missing(2) Cons.IH [of _ _ "tr @ [Exists file_path False, Print (FileNotFound file_path)]" eff']
    have "gets_go_to (release_url owner repo tag_name) eff' \<and> (\<forall>cur. own_lookup cur eff')"
      by simp
    moreover from e have "eff = [Exists file_path False, Print (FileNotFound file_path)] @ eff'"
      by simp
    ultimately show ?thesis by simp
  next
    case unprinted
    then show ?thesis by simp
  next
    case (aborted e eff0)
    then show ?thesis by (simp add: effect_ok_def)
  next
    case (uploaded aid eff0)
    from run_loop_extends [OF uploaded(3)] obtain eff' where
      e: "tr @ eff = (tr @ Exists file_path True # eff0) @ eff'"
      by blast
    with uploaded(3) Cons.IH [of _ _ "tr @ Exists file_path True # eff0" eff']
    have "gets_go_to (release_url owner repo tag_name) eff' \<and> (\<forall>cur. own_lookup cur eff')"
      by simp
    moreover from e have "eff = (Exists file_path True # eff0) @ eff'" by simp
    ultimately show ?thesis using uploaded(2) by (simp add: effect_ok_def own_lookup_append)
  next
    case (failed eff0)
    from run_loop_extends [OF failed(3)] obtain eff' where
      e: "tr @ eff = (tr @ Exists file_path True # eff0) @ eff'"
      by blast
    with failed(3) Cons.IH [of _ _ "tr @ Exists file_path True # eff0" eff']
    have "gets_go_to (release_url owner repo tag_name) eff' \<and> (\<forall>cur. own_lookup cur eff')"
      by simp
    moreover from e have "eff = (Exists file_path True # eff0) @ eff'" by simp
    ultimately show ?thesis using failed(2) by (simp add: effect_ok_def own_lookup_append)
  qed
qed

text \<open>The entries of the mapping.\<close>

lemma entries_ok_shift:
  assumes "entries_ok (Suc idx) rest tr new"
  shows "entries_ok idx (p # rest) tr new"
proof -
  have "(p # rest) ! (index e - idx) = rest ! (index e - Suc idx)" if "Suc idx \<le> index e" for e :: entry
  proof -
    from that have "index e - idx = Suc (index e - Suc idx)" by simp
    then show ?thesis by simp
  qed
  with assms show ?thesis by (auto simp: entries_ok_def)
qed

lemma entries_ok_Cons:
  assumes "entries_ok (Suc idx) rest tr new" "\<exists>ev\<in>set tr. accepted_upload ev aid"
  shows "entries_ok idx (p # rest) tr
           (\<lparr>index = idx, original_name = Some (path_name p), asset_id = aid\<rparr> # new)"
proof -
  from assms(1) have "entries_ok idx (p # rest) tr new" by (rule entries_ok_shift)
  moreover from assms(1) have "\<forall>e\<in>set new. idx < index e" by (auto simp: entries_ok_def)
  ultimately show ?thesis using assms(2) by (auto simp: entries_ok_def)
qed

lemma run_loop_mapping:
  assumes "run_loop env token owner repo tag_name idx paths st tr = (Inr st', tr')"
  shows "\<exists>new. filename_mapping st' = filename_mapping st @ new
           \<and> length new + success_count st = success_count st'
           \<and> entries_ok idx paths tr' new"
  using assms
proof (induction paths arbitrary: idx st tr)
  case Nil
  then show ?case by (auto simp: entries_ok_def)
next
  case (Cons file_path rest)
  from Cons.prems show ?case
  proof (cases rule: run_loop_Cons_cases)
    case missing
    from Cons.IH [OF missing(2)] show ?thesis by (auto intro: entries_ok_shift)
  next
    case unprinted
    then show ?thesis by simp
  next
    case (aborted e eff)
    then show ?thesis by simp
  next
    case (uploaded aid eff)
    from Cons.IH [OF uploaded(3)] obtain new where new:
      "filename_mapping st' = filename_mapping st
         @ \<lparr>index = idx, original_name = Some (path_name file_path), asset_id = aid\<rparr> # new"
      "length new + Suc (success_count st) = success_count st'"
      "entries_ok (Suc idx) rest tr' new"
      by auto
    from run_loop_extends [OF uploaded(3)] obtain more where
      "tr' = (tr @ Exists file_path True # eff) @ more" by blast
    moreover from uploaded(2) have "\<exists>ev\<in>set eff. accepted_upload ev aid"
      by (simp add: effect_ok_def)
    ultimately have "\<exists>ev\<in>set tr'. accepted_upload ev aid" by auto
    with new(3) have
      "entries_ok idx (file_path # rest) tr'
         (\<lparr>index = idx, original_name = Some (path_name file_path), asset_id = aid\<rparr> # new)"
      by (rule entries_ok_Cons)
    with new(1,2) show ?thesis by auto
  next
    case (failed eff)
    from Cons.IH [OF failed(3)] show ?thesis by (auto intro: entries_ok_shift)
  qed
qed

text \<open>
  The mapping is the list of the succeeded uploads read from the events, and the paths
  tested are the input paths in their order.
\<close>

lemma run_loop_uploads:
  assumes "run_loop env token owner repo tag_name idx paths st tr = (Inr st', tr @ eff)"
  shows "filename_mapping st' = filename_mapping st @ map entry_of (uploads_by_path idx cur eff)
         \<and> tested eff = paths"
  using assms
proof (induction paths arbitrary: idx st tr eff cur)
  case Nil
  then show ?case by simp
next
  case (Cons file_path rest)
  from Cons.prems show ?case
  proof (cases rule: run_loop_Cons_cases)
    case missing
    let ?pre = "[Exists file_path False, Print (FileNotFound file_path)]"
    from run_loop_extends [OF missing(2)] obtain eff' where e: "tr @ eff = (tr @ ?pre) @ eff'"
      by blast
    with missing(2) have
      "run_loop env token owner repo tag_name (Suc idx) rest (st\<lparr>fail_count := fail_count st + 1\<rparr>)
         (tr @ ?pre) = (Inr st', (tr @ ?pre) @ eff')"
      by simp
    from Cons.IH [OF this, of "Some (idx, file_path)"] have
      "filename_mapping st' = filename_mapping st
         @ map entry_of (uploads_by_path (Suc idx) (Some (idx, file_path)) eff')"
      "tested eff' = rest"
      by simp_all
    moreover from e have "eff = ?pre @ eff'" by simp
    ultimately show ?thesis by simp
  next
    case unprinted
    then show ?thesis by simp
  next
    case (aborted e eff0)
    then show ?thesis by simp
  next
    case (uploaded aid eff0)
    let ?st1 = "st\<lparr>success_count := success_count st + 1,
                  filename_mapping := filename_mapping st
                    @ [\<lparr>index = idx, original_name = Some (path_name file_path), asset_id = aid\<rparr>]\<rparr>"
    from run_loop_extends [OF uploaded(3)] obtain eff' where
      e: "tr @ eff = (tr @ Exists file_path True # eff0) @ eff'"
      by blast
    with uploaded(3) have
      "run_loop env token owner repo tag_name (Suc idx) rest ?st1 (tr @ Exists file_path True # eff0)
         = (Inr st', (tr @ Exists file_path True # eff0) @ eff')"
      by simp
    from Cons.IH [OF this, of "Some (idx, file_path)"] have ih:
      "filename_mapping st' = filename_mapping ?st1
         @ map entry_of (uploads_by_path (Suc idx) (Some (idx, file_path)) eff')"
      "tested eff' = rest"
      by simp_all
    from uploaded(2) have t0: "tested eff0 = []" and a0: "accepted_ids eff0 = [aid]"
      by (simp_all add: effect_ok_def)
    from e have eff: "eff = Exists file_path True # eff0 @ eff'" by simp
    have "uploads_by_path idx cur eff
        = (idx, path_name file_path, aid) # uploads_by_path (Suc idx) (Some (idx, file_path)) eff'"
      unfolding eff by (simp add: uploads_by_path_call [OF t0] a0)
    with ih t0 eff show ?thesis by (simp add: entry_of_def)
  next
    case (failed eff0)
    from run_loop_extends [OF failed(3)] obtain eff' where
      e: "tr @ eff = (tr @ Exists file_path True # eff0) @ eff'"
      by blast
    with failed(3) have
      "run_loop env token owner repo tag_name (Suc idx) rest (st\<lparr>fail_count := fail_count st + 1\<rparr>)
         (tr @ Exists file_path True # eff0) = (Inr st', (tr @ Exists file_path True # eff0) @ eff')"
      by simp
    from Cons.IH [OF this, of "Some (idx, file_path)"] have ih:
      "filename_mapping st' = filename_mapping st
         @ map entry_of (uploads_by_path (Suc idx) (Some (idx, file_path)) eff')"
      "tested eff' = rest"
      by simp_all
    from failed(2) have t0: "tested eff0 = []" and a0: "accepted_ids eff0 = []"
      by (simp_all add: effect_ok_def)
    from e have eff: "eff = Exists file_path True # eff0 @ eff'" by simp
    have "uploads_by_path idx cur eff = uploads_by_path (Suc idx) (Some (idx, file_path)) eff'"
      unfolding eff by (simp add: uploads_by_path_call [OF t0] a0)
    with ih t0 eff show ?thesis by simp
  qed
qed

section \<open>Properties of the report\<close>

lemma str_nat_ascii: "\<forall>c\<in>set (str_nat n). c < 128"
proof (induction n rule: str_nat.induct)
  case (1 n)
  show ?case
  proof (cases "n < 10")
    case True
    then show ?thesis by (subst str_nat.simps) simp
  next
    case False
    have "n mod 10 < 10" by simp
    then have "48 + n mod 10 < 128" by linarith
    with 1 False show ?thesis by (subst str_nat.simps) auto
  qed
qed

lemma str_int_ascii: "\<forall>c\<in>set (str_int i). c < 128"
  using str_nat_ascii by (auto simp: str_int_def)

lemma hex_lower_ascii: "d < 16 \<Longrightarrow> hex_lower d < 128"
  by (simp add: hex_lower_def)

lemma u_escape_ascii: "n < 65536 \<Longrightarrow> \<forall>c\<in>set (u_escape n). c < 128"
proof -
  assume "n < 65536"
  then have "n div 4096 < 16" by simp
  then show ?thesis by (simp add: u_escape_def hex_lower_ascii)
qed

lemma escape_char_ascii: "\<forall>x\<in>set (escape_char c). x < 128"
proof -
  have "(c - 65536) div 1024 mod 1024 < 1024" "(c - 65536) mod 1024 < 1024" by simp_all
  then have a: "55296 + (c - 65536) div 1024 mod 1024 < 65536"
    and b: "56320 + (c - 65536) mod 1024 < 65536"
    by linarith+
  have hi: "\<forall>x\<in>set (u_escape (55296 + (c - 65536) div 1024 mod 1024)). x < 128"
    using a by (rule u_escape_ascii)
  have lo: "\<forall>x\<in>set (u_escape (56320 + (c - 65536) mod 1024)). x < 128"
    using b by (rule u_escape_ascii)
  have bmp: "c < 65536 \<Longrightarrow> \<forall>x\<in>set (u_escape c). x < 128"
    by (rule u_escape_ascii)
  from hi lo bmp show ?thesis
    unfolding escape_char_def by auto
qed

lemma dumps_str_ascii: "\<forall>c\<in>set (dumps_str s). c < 128"
  using escape_char_ascii by (auto simp: dumps_str_def)

lemma join_comma_ascii:
  "\<forall>x\<in>set xs. \<forall>c\<in>set x. c < (128::nat) \<Longrightarrow> \<forall>c\<in>set (join_comma xs). c < 128"
  by (induction xs rule: join_comma.induct) auto

lemma lit_ascii: "\<forall>c\<in>set s. (of_char c :: nat) < 128 \<Longrightarrow> \<forall>c\<in>set (lit s). c < 128"
  by (auto simp: lit_def)

lemma dumps_ascii: "\<forall>c\<in>set (dumps j). c < 128"
proof (induction j)
  case JNull
  show ?case by (simp add: lit_def)
next
  case (JBool b)
  show ?case by (simp add: lit_def)
next
  case (JInt i)
  show ?case using str_int_ascii by simp
next
  case (JStr s)
  show ?case using dumps_str_ascii by simp
next
  case (JArr xs)
  then have "\<forall>x\<in>set (map dumps xs). \<forall>c\<in>set x. c < 128" by auto
  from join_comma_ascii [OF this] show ?case by auto
next
  case (JObj kvs)
  have "\<forall>x\<in>set (map dumps_item (map (map_prod id dumps) kvs)). \<forall>c\<in>set x. c < 128"
  proof
    fix x assume "x \<in> set (map dumps_item (map (map_prod id dumps) kvs))"
    then obtain k v where kv: "(k, v) \<in> set kvs" and x: "x = dumps_str k @ [58, 32] @ dumps v"
      by (auto simp: dumps_item_def)
    from kv have "\<forall>c\<in>set (dumps v). c < 128" using JObj by fastforce
    with x show "\<forall>c\<in>set x. c < 128" using dumps_str_ascii by auto
  qed
  from join_comma_ascii [OF this] show ?case by auto
qed

lemma report_strict:
  "stdout_errors env = Strict \<Longrightarrow> report env st tr = (Uncaught UnicodeEncodeError, tr)"
  by (simp add: report_def py_print_def)

lemma report_pass:
  "stdout_errors env = SurrogatePass \<Longrightarrow>
   report env st tr =
     (Finished (if fail_count st = 0 then 0 else 1) st,
      tr @ [Print (Results (success_count st) (fail_count st))]
         @ (if filename_mapping st \<noteq> []
            then [Print MappingStart,
                  Print (Payload (b64encode (dumps (mapping_json (filename_mapping st))))),
                  Print MappingEnd]
            else []))"
  by (simp add: report_def py_print_def Let_def utf8_encode_ascii dumps_ascii)

lemma report_cases [case_names strict pass]:
  obtains
    (strict) "stdout_errors env = Strict" "report env st tr = (Uncaught UnicodeEncodeError, tr)"
  | (pass) "stdout_errors env = SurrogatePass"
      "report env st tr =
         (Finished (if fail_count st = 0 then 0 else 1) st,
          tr @ [Print (Results (success_count st) (fail_count st))]
             @ (if filename_mapping st \<noteq> []
                then [Print MappingStart,
                      Print (Payload (b64encode (dumps (mapping_json (filename_mapping st))))),
                      Print MappingEnd]
                else []))"
  by (cases "stdout_errors env") (simp_all add: report_strict report_pass)

lemma main_cases:
  assumes "5 \<le> length argv"
  obtains (aborted) e tr where
      "run_loop env (argv ! 1) (argv ! 2) (argv ! 3) (argv ! 4) 0 (drop 5 argv)
         \<lparr>success_count = 0, fail_count = 0, filename_mapping = []\<rparr> [] = (Inl e, tr)"
      "main env argv = (Uncaught e, tr)"
  | (finished) st tr where
      "run_loop env (argv ! 1) (argv ! 2) (argv ! 3) (argv ! 4) 0 (drop 5 argv)
         \<lparr>success_count = 0, fail_count = 0, filename_mapping = []\<rparr> [] = (Inr st, tr)"
      "main env argv = report env st tr"
proof -
  obtain res tr where r:
    "run_loop env (argv ! 1) (argv ! 2) (argv ! 3) (argv ! 4) 0 (drop 5 argv)
       \<lparr>success_count = 0, fail_count = 0, filename_mapping = []\<rparr> [] = (res, tr)"
    by (cases "run_loop env (argv ! 1) (argv ! 2) (argv ! 3) (argv ! 4) 0 (drop 5 argv)
       \<lparr>success_count = 0, fail_count = 0, filename_mapping = []\<rparr> []")
  show ?thesis
  proof (cases res)
    case (Inl e)
    with r assms have "main env argv = (Uncaught e, tr)" by (simp add: main_def Let_def)
    with r Inl show ?thesis using aborted by blast
  next
    case (Inr st)
    with r assms have "main env argv = report env st tr" by (simp add: main_def Let_def)
    with r Inr show ?thesis using finished by blast
  qed
qed

lemma main_usage: "length argv < 5 \<Longrightarrow> main env argv = (UsageExit, [Print Usage])"
  by (simp add: main_def py_print_def)

section \<open>Properties of the retrying session\<close>

lemma retry_from_final:
  "srv i = Answered final \<Longrightarrow> status_code final \<notin> set (status_forcelist cfg)
     \<Longrightarrow> retry_from cfg method srv i t c r = Inr final"
  by (cases t) simp_all

lemma retry_from_skip:
  "k \<le> t \<Longrightarrow> method \<in> set (allowed_methods cfg)
     \<Longrightarrow> \<forall>j<k. \<exists>resp. srv (i + j) = Answered resp
                 \<and> status_code resp \<in> set (status_forcelist cfg)
     \<Longrightarrow> retry_from cfg method srv i t c r = retry_from cfg method srv (i + k) (t - k) c r"
proof (induction k arbitrary: i t)
  case 0
  then show ?case by simp
next
  case (Suc k)
  then obtain t' where t: "t = Suc t'" by (cases t) auto
  from Suc.prems(3) obtain resp where
    "srv (i + 0) = Answered resp" "status_code resp \<in> set (status_forcelist cfg)"
    by blast
  with Suc.prems(2) t have
    "retry_from cfg method srv i t c r = retry_from cfg method srv (Suc i) t' c r"
    by simp
  also have "\<dots> = retry_from cfg method srv (Suc i + k) (t' - k) c r"
  proof (rule Suc.IH)
    show "k \<le> t'" using Suc.prems(1) t by simp
    show "method \<in> set (allowed_methods cfg)" by (rule Suc.prems(2))
    show "\<forall>j<k. \<exists>resp. srv (Suc i + j) = Answered resp
            \<and> status_code resp \<in> set (status_forcelist cfg)"
    proof (intro allI impI)
      fix j assume "j < k"
      then have "Suc j < Suc k" by simp
      with Suc.prems(3) have "\<exists>resp. srv (i + Suc j) = Answered resp
            \<and> status_code resp \<in> set (status_forcelist cfg)" by blast
      then show "\<exists>resp. srv (Suc i + j) = Answered resp
            \<and> status_code resp \<in> set (status_forcelist cfg)" by simp
    qed
  qed
  finally show ?case using t by simp
qed

section \<open>The claims\<close>

lemmas run_defs = upload_to_release_def on_exception_def py_print_def can_print_def
  release_upload_url_def response_asset_id_def content_type_of_def Let_def lit_def path_name_def
  quote_def quote_from_bytes_def quote_byte_def always_safe_def hex_upper_def utf8_char_def

lemmas example_defs = argv_none_def argv_one_def argv_two_def argv_mixed_def env_ok_def
  env_ok_pass_def env_mixed_def env_no_upload_url_def env_no_id_def ok_release_def created_def

lemma count_events_zero: "count_events P tr = 0 \<Longrightarrow> e \<in> set tr \<Longrightarrow> \<not> P e"
  by (auto simp: count_events_def filter_empty_conv)

lemma uploads_by_path_prints: "uploads_by_path i cur (map Print ls) = []"
  by (induction ls) (auto split: option.splits)

lemma uploads_by_path_append_prints:
  "uploads_by_path i cur (xs @ map Print ls) = uploads_by_path i cur xs"
proof (induction xs arbitrary: i cur)
  case Nil
  then show ?case by (simp add: uploads_by_path_prints)
next
  case (Cons e xs)
  then show ?case by (cases e) (auto split: option.splits)
qed

lemma tested_prints: "tested (map Print ls) = []"
  by (induction ls) simp_all


text \<open>
  Claim C10. The claim says that a run with an empty list of file paths prints the summary
  line and ends with status 0. With exactly five elements in \<open>sys.argv\<close> the program makes
  no request and reaches line 127, but the text of that line holds the two surrogate code
  points that the source writes as \<open>\ud83d\udcca\<close>: it has no UTF-8 encoding, so on a
  standard output with the error handler \<open>strict\<close> the \<open>print\<close> raises
  \<open>UnicodeEncodeError\<close>. Nothing is printed and the process ends with status 1.
\<close>

theorem empty_file_list_summary_raises:
  "length argv_none = 5
   \<and> stdout_errors env_no_upload_url = Strict
   \<and> utf8_encode (render (Results 0 0)) = Inl UnicodeEncodeError
   \<and> main env_no_upload_url argv_none = (Uncaught UnicodeEncodeError, [])
   \<and> exit_status (fst (main env_no_upload_url argv_none)) = 1"
  by (simp add: main_def example_defs report_strict results_not_encodable del: render.simps)

text \<open>
  Claim C2. The claim asks for the usage message and exit status 1 whenever fewer than
  five arguments follow the program name. The program tests \<open>len(sys.argv) < 5\<close>, and
  \<open>sys.argv\<close> counts the program name: with four arguments after the program name (no file
  path) the test passes and no usage message is printed, although the usage text of line
  97 lists the file path as required. The program goes on to the summary of line 127: on
  a strict standard output that \<open>print\<close> raises \<open>UnicodeEncodeError\<close>, on one that passes
  surrogates the summary is printed and the status is 0.
\<close>

theorem four_arguments_no_usage:
  "length argv_none = 5
   \<and> fst (main env_ok argv_none) \<noteq> UsageExit
   \<and> Print Usage \<notin> set (snd (main env_ok argv_none))
   \<and> main env_ok argv_none = (Uncaught UnicodeEncodeError, [])
   \<and> main env_ok_pass argv_none
     = (Finished 0 \<lparr>success_count = 0, fail_count = 0, filename_mapping = []\<rparr>,
        [Print (Results 0 0)])"
  by (simp add: main_def example_defs report_strict report_pass)



text \<open>
  Claim C4. The claim says that a run that reaches the loop ends with status 0 exactly
  when \<open>fail_count\<close> is 0. With one file that exists and is uploaded, the loop ends with no
  failure line printed and one success line, so \<open>fail_count\<close> is 0; then the \<open>print\<close> of
  line 127 raises \<open>UnicodeEncodeError\<close> on a strict standard output, line 138 is not
  reached and the process ends with status 1.
\<close>

theorem no_failure_but_status_1:
  "stdout_errors env_ok = Strict
   \<and> count_events is_failure (snd (main env_ok argv_one)) = 0
   \<and> count_events is_uploaded (snd (main env_ok argv_one)) = 1
   \<and> fst (main env_ok argv_one) = Uncaught UnicodeEncodeError
   \<and> exit_status (fst (main env_ok argv_one)) = 1"
  by (simp add: main_def run_defs example_defs report_strict)

text \<open>
  Claim C7, as amended. For every filename made of Unicode scalar values (any code point
  that is not a surrogate, so every non-ASCII character) \<open>quote(filename, safe='')\<close>
  returns, and percent-decoding its result followed by UTF-8 decoding gives the filename
  back.
\<close>

theorem quote_round_trip:
  assumes "\<forall>c\<in>set filename. scalar c"
  shows "\<exists>enc. quote filename = Inr enc \<and> unquote enc = Some filename"
proof -
  from assms obtain bs where bs: "utf8_encode filename = Inr bs"
    using utf8_encode_scalar by blast
  then have "unquote_to_bytes (quote_from_bytes bs) = bs"
    using utf8_encode_bytes unquote_quote_bytes by blast
  with bs show ?thesis by (simp add: quote_def unquote_def utf8_decode_encode)
qed

theorem quote_round_trip_witness:
  "quote hebrew_pdf = Inr (lit ''%D7%A7%D7%95%D7%91%D7%A5.pdf'')
   \<and> unquote (lit ''%D7%A7%D7%95%D7%91%D7%A5.pdf'') = Some hebrew_pdf"
proof -
  have sc: "\<forall>c\<in>set hebrew_pdf. scalar c" by (simp add: hebrew_pdf_def scalar_def)
  have q: "quote hebrew_pdf = Inr (lit ''%D7%A7%D7%95%D7%91%D7%A5.pdf'')"
    by (simp add: hebrew_pdf_def run_defs)
  from quote_round_trip [OF sc] q show ?thesis by auto
qed

text \<open>
  Claim C7 as stated fails for a filename with a surrogate code point (the name of a file
  whose bytes are not valid UTF-8 reaches the program in this form): \<open>quote\<close> raises
  \<open>UnicodeEncodeError\<close>, so there is no encoded form to decode.
\<close>

theorem quote_surrogate_counterexample:
  "quote surrogate_txt = Inl UnicodeEncodeError
   \<and> \<not> (\<exists>enc. quote surrogate_txt = Inr enc \<and> unquote enc = Some surrogate_txt)"
  by (simp add: surrogate_txt_def run_defs)

text \<open>
  Claim C1. The claim says that no error of one file's task ends the run, and in
  particular that a release lookup answered with status 200 whose body lacks the
  \<open>upload_url\<close> field must not. The \<open>except\<close> clause of \<open>upload_to_release\<close> catches
  \<open>RequestException\<close> only: with two existing files and a lookup answered with 200 and the
  JSON object \<open>{}\<close>, line 57 raises \<open>KeyError\<close>, which leaves the function and the loop.
  The second file is never looked at, no summary is printed and the process ends with
  status 1.
\<close>

theorem lookup_without_upload_url_aborts:
  "main env_no_upload_url argv_two
     = (Uncaught (KeyError (lit ''upload_url'')),
        [Exists (lit ''a.txt'') True,
         Get (release_url (lit ''own'') (lit ''repo'') (lit ''v1''))
           [(lit ''Authorization'', lit ''token tok''),
            (lit ''Accept'', lit ''application/vnd.github.v3+json'')]
           (Inr \<lparr>status_code = 200, body_text = lit ''{}'', body_json = Inr (JObj [])\<rparr>)])
   \<and> exit_status (fst (main env_no_upload_url argv_two)) = 1"
  by (simp add: main_def run_defs example_defs release_url_def)

text \<open>
  Claim C3 as stated fails: with two existing files the run makes two lookups of the
  release, not one.
\<close>

theorem two_files_two_lookups_counterexample:
  "count_events is_found (snd (main env_ok argv_two)) = 2
   \<and> count_events is_get (snd (main env_ok argv_two)) = 2"
  by (simp add: main_def run_defs example_defs report_strict)

text \<open>
  Claim C3, as amended. In every run the release is looked up once for each input path
  that is found to exist: the number of GET requests equals the number of paths found,
  every GET goes to the releases-by-tag URL of the owner, repository and tag of the command
  line, and every upload request goes to the upload URL of the response to the lookup made
  just before it, which no other upload uses.
\<close>

theorem one_lookup_per_existing_file:
  "count_events is_get (snd (main env argv)) = count_events is_found (snd (main env argv))
   \<and> gets_go_to (release_url (argv ! 2) (argv ! 3) (argv ! 4)) (snd (main env argv))
   \<and> own_lookup None (snd (main env argv))"
proof (cases "length argv < 5")
  case True
  then show ?thesis by (simp add: main_usage)
next
  case False
  then have "5 \<le> length argv" by simp
  then show ?thesis
  proof (cases rule: main_cases [where env = env])
    case (aborted e tr)
    from run_loop_counts [OF aborted(1)] run_loop_lookups [of _ _ _ _ _ _ _ _ "[]" _ tr] aborted
    show ?thesis by simp
  next
    case (finished st tr)
    from run_loop_counts [OF finished(1)] run_loop_lookups [of _ _ _ _ _ _ _ _ "[]" _ tr] finished
    show ?thesis
      by (cases rule: report_cases [of env st tr]) (simp_all add: own_lookup_append)
  qed
qed

text \<open>
  Claim C8. With the policy of \<open>create_retry_session()\<close> (5 retries, backoff factor 1,
  retryable statuses 429, 500, 502, 503, 504) and a method the policy retries: when the
  first \<open>k < 5\<close> attempts are answered with retryable statuses and the next attempt with a
  status outside the set (200, or 404), the session returns that last response.
\<close>

theorem retry_returns_final_response:
  assumes "k < 5"
    and "\<forall>i<k. \<exists>r. srv i = Answered r \<and> status_code r \<in> {429, 500, 502, 503, 504}"
    and "srv k = Answered final"
    and "status_code final \<notin> {429, 500, 502, 503, 504}"
    and "method \<in> set (allowed_methods default_session)"
  shows "session_request default_session method srv = Inr final"
proof -
  have sfl: "set (status_forcelist default_session) = {429, 500, 502, 503, 504}"
    by (simp add: default_session_def create_retry_session_def)
  from assms(2) have "\<forall>j<k. \<exists>r. srv (0 + j) = Answered r
      \<and> status_code r \<in> set (status_forcelist default_session)"
    by (simp add: sfl)
  with assms(1,5) have
    "retry_from default_session method srv 0 5 5 5
       = retry_from default_session method srv (0 + k) (5 - k) 5 5"
    by (intro retry_from_skip) simp_all
  moreover from assms(3,4) have "retry_from default_session method srv k (5 - k) 5 5 = Inr final"
    by (intro retry_from_final) (simp_all add: sfl)
  ultimately show ?thesis
    by (simp add: session_request_def default_session_def create_retry_session_def)
qed

theorem retry_returns_final_response_witness:
  "session_request default_session (lit ''GET'') flaky_server = Inr ok_release"
proof -
  have a: "(2::nat) < 5" by simp
  have b: "\<forall>i<2. \<exists>r. flaky_server i = Answered r \<and> status_code r \<in> {429, 500, 502, 503, 504}"
  proof (intro allI impI)
    fix i :: nat assume "i < 2"
    then have "i = 0 \<or> i = 1" by auto
    then show "\<exists>r. flaky_server i = Answered r \<and> status_code r \<in> {429, 500, 502, 503, 504}"
      by (auto simp: flaky_server_def)
  qed
  have c: "flaky_server 2 = Answered ok_release" by (simp add: flaky_server_def)
  have d: "status_code ok_release \<notin> {429, 500, 502, 503, 504}" by (simp add: ok_release_def)
  have e: "lit ''GET'' \<in> set (allowed_methods default_session)"
    by (simp add: default_session_def create_retry_session_def lit_def)
  from retry_returns_final_response [OF a b c d e] show ?thesis .
qed

text \<open>
  Claim C9. When the call of \<open>upload_to_release\<close> for a file that exists makes an upload
  request that is answered with 200 or 201 and a JSON object without the key \<open>id\<close>, the
  call returns success with the name of the file and \<open>None\<close> as the identifier, and the
  loop goes on with \<open>success_count\<close> increased and an entry added to the mapping whose
  \<open>asset_id\<close> is \<open>None\<close>.
\<close>

theorem missing_id_is_success:
  assumes "path_exists env tr file_path"
    and "Post url hs d (Inr r)
           \<in> set (drop (Suc (length tr))
                   (snd (upload_to_release env (tr @ [Exists file_path True])
                           token owner repo tag_name file_path)))"
    and "status_code r = 200 \<or> status_code r = 201"
    and "body_json r = Inr (JObj kvs)"
    and "map_of kvs (lit ''id'') = None"
  shows "fst (upload_to_release env (tr @ [Exists file_path True]) token owner repo tag_name file_path)
           = Inr (True, Some (path_name file_path), JNull)
         \<and> run_loop env token owner repo tag_name idx (file_path # rest) st tr
           = run_loop env token owner repo tag_name (Suc idx) rest
               (st\<lparr>success_count := success_count st + 1,
                   filename_mapping := filename_mapping st
                     @ [\<lparr>index = idx, original_name = Some (path_name file_path),
                          asset_id = JNull\<rparr>]\<rparr>)
               (snd (upload_to_release env (tr @ [Exists file_path True])
                       token owner repo tag_name file_path))"
proof -
  let ?tr1 = "tr @ [Exists file_path True]"
  obtain res tr2 where up:
    "upload_to_release env ?tr1 token owner repo tag_name file_path = (res, tr2)"
    by (cases "upload_to_release env ?tr1 token owner repo tag_name file_path")
  then obtain eff where eff: "tr2 = ?tr1 @ eff" "effect_ok owner repo tag_name file_path res eff"
    by (rule upload_to_release_effect)
  from assms(2) up eff(1) have "Post url hs d (Inr r) \<in> set eff" by simp
  moreover from assms(3,4,5) have "accepted_upload (Post url hs d (Inr r)) JNull"
    by (simp add: accepted_upload_def response_asset_id_def)
  ultimately have res: "res = Inr (True, Some (path_name file_path), JNull)"
    using eff(2) by (auto simp: effect_ok_def)
  with up assms(1) show ?thesis
    by (simp add: Let_def)
qed

theorem missing_id_is_success_witness:
  "fst (upload_to_release env_no_id ([] @ [Exists (lit ''a.txt'') True])
          (lit ''tok'') (lit ''own'') (lit ''repo'') (lit ''v1'') (lit ''a.txt''))
     = Inr (True, Some (lit ''a.txt''), JNull)
   \<and> fst (main env_no_id argv_one)
     = Finished 0 \<lparr>success_count = 1, fail_count = 0,
                    filename_mapping = [\<lparr>index = 0, original_name = Some (lit ''a.txt''),
                                          asset_id = JNull\<rparr>]\<rparr>"
proof -
  have a: "path_exists env_no_id [] (lit ''a.txt'')" by (simp add: env_no_id_def)
  have b: "Post (lit ''https://up/assets?name=a.txt'')
             [(lit ''Authorization'', lit ''token tok''),
              (lit ''Content-Type'', lit ''application/octet-stream'')]
             [1, 2, 3]
             (Inr \<lparr>status_code = 201, body_text = [],
                    body_json = Inr (JObj [(lit ''name'', JStr (lit ''a.txt''))])\<rparr>)
           \<in> set (drop (Suc (length []))
                   (snd (upload_to_release env_no_id ([] @ [Exists (lit ''a.txt'') True])
                           (lit ''tok'') (lit ''own'') (lit ''repo'') (lit ''v1'') (lit ''a.txt''))))"
    by (simp add: run_defs example_defs)
  have c: "status_code \<lparr>status_code = 201, body_text = [],
                    body_json = Inr (JObj [(lit ''name'', JStr (lit ''a.txt''))])\<rparr> = 200
         \<or> status_code \<lparr>status_code = 201, body_text = [],
                    body_json = Inr (JObj [(lit ''name'', JStr (lit ''a.txt''))])\<rparr> = 201"
    by simp
  have d: "body_json \<lparr>status_code = 201, body_text = [],
                    body_json = Inr (JObj [(lit ''name'', JStr (lit ''a.txt''))])\<rparr>
             = Inr (JObj [(lit ''name'', JStr (lit ''a.txt''))])"
    by simp
  have e: "map_of [(lit ''name'', JStr (lit ''a.txt''))] (lit ''id'') = None"
    by (simp add: lit_def)
  have p: "path_name (lit ''a.txt'') = lit ''a.txt''" by (simp add: path_name_def lit_def)
  have m: "fst (main env_no_id argv_one)
     = Finished 0 \<lparr>success_count = 1, fail_count = 0,
                    filename_mapping = [\<lparr>index = 0, original_name = Some (lit ''a.txt''),
                                          asset_id = JNull\<rparr>]\<rparr>"
    by (simp add: main_def run_defs example_defs argv_one_def report_pass)
  from missing_id_is_success [OF a b c d e] p m show ?thesis by simp
qed

text \<open>
  Claim C6. When the payload line is printed, the program has reached line 138, and
  Base64-decoding the payload gives the text \<open>json.dumps\<close> writes for a JSON array with
  one object for each succeeded upload of the run, in the order of the uploads: the
  object holds the position of the input path whose upload it was, the name of the file
  (the last component of that path, as it is, not percent-encoded) and the identifier that
  \<open>.get('id')\<close> read from the answer to that upload. The paths tested are the input paths
  in their order, so the position is the zero-based index in the input. The array has
  \<open>success_count\<close> elements, its indices increase and are below the number of input paths,
  and \<open>filename_mapping\<close> holds the same records.
\<close>

theorem mapping_payload_decodes:
  assumes "Print (Payload p) \<in> set (snd (main env argv))"
  shows "\<exists>code st. fst (main env argv) = Finished code st
           \<and> tested (snd (main env argv)) = drop 5 argv
           \<and> filename_mapping st = map entry_of (uploads_by_path 0 None (snd (main env argv)))
           \<and> b64decode p
               = Some (dumps (JArr (map record_of (uploads_by_path 0 None (snd (main env argv))))))
           \<and> length (uploads_by_path 0 None (snd (main env argv))) = success_count st
           \<and> sorted_wrt (<) (map fst (uploads_by_path 0 None (snd (main env argv))))
           \<and> (\<forall>u\<in>set (uploads_by_path 0 None (snd (main env argv))).
                 fst u < length (drop 5 argv)
                 \<and> fst (snd u) = path_name (drop 5 argv ! fst u))"
proof -
  from assms have len: "5 \<le> length argv"
    by (cases "length argv < 5") (simp_all add: main_usage)
  from len show ?thesis
  proof (cases rule: main_cases [where env = env])
    case (aborted e tr)
    from run_loop_counts [OF aborted(1)] have "count_events is_payload tr = 0" by simp
    from count_events_zero [OF this] assms aborted(2) show ?thesis by fastforce
  next
    case (finished st tr)
    let ?m = "filename_mapping st"
    let ?ups = "uploads_by_path 0 None tr"
    from run_loop_counts [OF finished(1)] have "count_events is_payload tr = 0" by simp
    from count_events_zero [OF this] have no: "Print (Payload p) \<notin> set tr" by fastforce
    show ?thesis
    proof (cases rule: report_cases [of env st tr])
      case strict
      with assms finished(2) no show ?thesis by simp
    next
      case pass
      from assms finished(2) pass(2) no have ne: "?m \<noteq> []"
        and p: "p = b64encode (dumps (mapping_json ?m))"
        by (auto split: if_splits)
      from finished(2) pass(2) ne have trace:
        "snd (main env argv)
           = tr @ map Print [Results (success_count st) (fail_count st), MappingStart,
                             Payload (b64encode (dumps (mapping_json ?m))), MappingEnd]"
        by simp
      have ups: "uploads_by_path 0 None (snd (main env argv)) = ?ups"
        unfolding trace by (rule uploads_by_path_append_prints)
      have tst: "tested (snd (main env argv)) = tested tr"
        unfolding trace by (simp only: tested_append tested_prints append_Nil2)
      from run_loop_uploads [of env _ _ _ _ 0 _ _ "[]" st tr None] finished(1)
      have m: "?m = map entry_of ?ups" and t: "tested tr = drop 5 argv"
        by simp_all
      have "\<forall>b\<in>set (dumps (mapping_json ?m)). b < 256"
        using dumps_ascii [of "mapping_json ?m"] by fastforce
      then have dec0: "b64decode p = Some (dumps (mapping_json ?m))"
        unfolding p by (rule b64decode_encode)
      have "map entry_json ?m = map entry_json (map entry_of ?ups)"
        using m by (rule arg_cong)
      also have "\<dots> = map record_of ?ups"
        by (simp add: entry_json_def entry_of_def record_of_def)
      finally have "mapping_json ?m = JArr (map record_of ?ups)"
        by (simp only: mapping_json_def)
      with dec0 have dec: "b64decode p = Some (dumps (JArr (map record_of ?ups)))"
        by (simp only:)
      from run_loop_mapping [OF finished(1)] have
        n: "length ?m = success_count st" and ok: "entries_ok 0 (drop 5 argv) tr ?m"
        by auto
      from n m have n': "length ?ups = success_count st"
        by (metis length_map)
      have idx: "map index (map entry_of ?ups) = map fst ?ups"
        by (simp add: entry_of_def)
      from ok have "sorted_wrt (<) (map index ?m)"
        by (simp add: entries_ok_def)
      then have "sorted_wrt (<) (map index (map entry_of ?ups))"
        using m by (simp only:)
      then have srt: "sorted_wrt (<) (map fst ?ups)"
        using idx by (simp only:)
      have all: "\<forall>u\<in>set ?ups. fst u < length (drop 5 argv)
                   \<and> fst (snd u) = path_name (drop 5 argv ! fst u)"
      proof
        fix u assume "u \<in> set ?ups"
        then have "entry_of u \<in> set ?m" using m by (metis imageI set_map)
        with ok have "index (entry_of u) < length (drop 5 argv)"
          "original_name (entry_of u) = Some (path_name (drop 5 argv ! index (entry_of u)))"
          by (auto simp: entries_ok_def)
        then show "fst u < length (drop 5 argv) \<and> fst (snd u) = path_name (drop 5 argv ! fst u)"
          by (simp add: entry_of_def)
      qed
      have fin: "fst (main env argv) = Finished (if fail_count st = 0 then 0 else 1) st"
        using finished(2) pass(2) by simp
      from fin t m dec n' srt all show ?thesis
        unfolding ups tst by blast
    qed
  qed
qed

theorem mapping_payload_decodes_witness:
  \<open>Print (Payload (lit ''W3siaW5kZXgiOiAxLCAib3JpZ2luYWxfbmFtZSI6ICJhLnR4dCIsICJhc3NldF9pZCI6IDd9XQ==''))
     \<in> set (snd (main env_mixed argv_mixed))
   \<and> uploads_by_path 0 None (snd (main env_mixed argv_mixed)) = [(1, lit ''a.txt'', JInt 7)]
   \<and> b64decode (lit ''W3siaW5kZXgiOiAxLCAib3JpZ2luYWxfbmFtZSI6ICJhLnR4dCIsICJhc3NldF9pZCI6IDd9XQ=='')
     = Some (lit ''[{"index": 1, "original_name": "a.txt", "asset_id": 7}]'')\<close>
proof -
  have u: "uploads_by_path 0 None (snd (main env_mixed argv_mixed)) = [(1, lit ''a.txt'', JInt 7)]"
    by (simp add: main_def run_defs example_defs report_pass)
  have d: \<open>dumps (JArr [JObj [(lit ''index'', JInt 1), (lit ''original_name'', JStr (lit ''a.txt'')),
                              (lit ''asset_id'', JInt 7)]])
           = lit ''[{"index": 1, "original_name": "a.txt", "asset_id": 7}]''\<close>
    by (simp add: lit_def dumps_item_def dumps_str_def escape_char_def str_int_def str_nat.simps)
  have e: \<open>b64encode (lit ''[{"index": 1, "original_name": "a.txt", "asset_id": 7}]'')
           = lit ''W3siaW5kZXgiOiAxLCAib3JpZ2luYWxfbmFtZSI6ICJhLnR4dCIsICJhc3NldF9pZCI6IDd9XQ==''\<close>
    by (simp add: lit_def b64_char_def)
  have tr: "snd (main env_mixed argv_mixed)
      = snd (run_loop env_mixed (lit ''tok'') (lit ''own'') (lit ''repo'') (lit ''v1'') 0
               [lit ''gone.bin'', lit ''a.txt'', lit ''big.bin'']
               \<lparr>success_count = 0, fail_count = 0, filename_mapping = []\<rparr> [])
        @ [Print (Results 1 2), Print MappingStart,
           Print (Payload (b64encode (dumps (mapping_json
             [\<lparr>index = 1, original_name = Some (lit ''a.txt''), asset_id = JInt 7\<rparr>])))),
           Print MappingEnd]"
    by (simp add: main_def run_defs example_defs report_pass)
  have m: "mapping_json [\<lparr>index = 1, original_name = Some (lit ''a.txt''), asset_id = JInt 7\<rparr>]
      = JArr [JObj [(lit ''index'', JInt 1), (lit ''original_name'', JStr (lit ''a.txt'')),
                    (lit ''asset_id'', JInt 7)]]"
    by (simp add: mapping_json_def entry_json_def)
  have h: \<open>Print (Payload (lit ''W3siaW5kZXgiOiAxLCAib3JpZ2luYWxfbmFtZSI6ICJhLnR4dCIsICJhc3NldF9pZCI6IDd9XQ==''))
     \<in> set (snd (main env_mixed argv_mixed))\<close>
    unfolding tr m d e by simp
  from mapping_payload_decodes [OF h] u
  have \<open>b64decode (lit ''W3siaW5kZXgiOiAxLCAib3JpZ2luYWxfbmFtZSI6ICJhLnR4dCIsICJhc3NldF9pZCI6IDd9XQ=='')
     = Some (dumps (JArr (map record_of [(1, lit ''a.txt'', JInt 7)])))\<close>
    by auto
  then show ?thesis using h u d by (simp add: record_of_def)
qed


end
